theory Spec2Isabelle
  imports Complex_Main "HOL-Library.Monad_Syntax"
begin

section \<open>Numbers and containers\<close>

text \<open>
  The C++ type \<open>double\<close> is embedded as \<^typ>\<open>real\<close>: every result below is a statement
  about the formulas of the program in exact arithmetic, with the program's comparisons
  against its thresholds kept as they are written. Rounding and overflow are outside the
  embedding. A \<open>std::vector\<close> is a list. \<open>operator[]\<close> does not check its index; a read
  outside the vector has no defined result, and the embedding makes it the value \<open>None\<close>
  of the whole computation. Loop counters that start at 0 and count upwards are natural
  numbers; the entries of an index vector are arbitrary, possibly negative, integers.
\<close>

definition read_at :: "'a list \<Rightarrow> int \<Rightarrow> 'a option" where
  "read_at xs i = (if 0 \<le> i \<and> i < int (length xs) then Some (xs ! nat i) else None)"

text \<open>
  \<open>sqrt\<close> of \<open>cmath\<close> on a negative argument is a NaN, and a quotient by zero is an
  infinity or a NaN: neither is a real number. Where the program takes a root or a
  quotient whose argument is not fixed by the surrounding code, the embedding uses these
  two operations, with \<open>None\<close> for a value that is not a real number.
\<close>

definition c_sqrt :: "real \<Rightarrow> real option" where
  "c_sqrt a = (if a < 0 then None else Some (sqrt a))"

definition c_div :: "real \<Rightarrow> real \<Rightarrow> real option" where
  "c_div a b = (if b = 0 then None else Some (a / b))"

text \<open>
  \<open>atan2\<close> of \<open>cmath\<close>: the angle of the point \<open>(x, y)\<close>, and 0 at the origin. The real
  numbers have one zero where \<open>double\<close> has two, and left of the origin the library
  function returns pi for \<open>y = +0.0\<close> and -pi for \<open>y = -0.0\<close>. The only call of the program
  passes \<open>-2.0 * result.Ixy\<close>. A zero \<open>Ixy\<close> is always the positive zero: it is the
  difference of a sum that started at \<open>+0.0\<close> and a product, and such a difference, when
  zero, is \<open>+0.0\<close>. So a zero first argument is always \<open>-0.0\<close> in the program, and the
  embedding takes a zero \<open>y\<close> as that: \<open>atan2 0 x = - pi\<close> for \<open>x < 0\<close>.
\<close>

definition atan2 :: "real \<Rightarrow> real \<Rightarrow> real" where
  "atan2 y x =
     (if 0 < x then arctan (y / x)
      else if x < 0 then (if 0 < y then arctan (y / x) + pi else arctan (y / x) - pi)
      else if 0 < y then pi / 2
      else if y < 0 then - (pi / 2)
      else 0)"

section \<open>AreaMomentsCalculator.h\<close>

text \<open>
  \<open>struct AreaMomentsResult\<close>; its constructor sets every field to 0.
\<close>

record AreaMomentsResult =
  area :: real
  Cx :: real
  Cy :: real
  Ix :: real
  Iy :: real
  Ixy :: real
  Imin :: real
  Imax :: real
  theta :: real

definition AreaMomentsResult_init :: AreaMomentsResult where
  "AreaMomentsResult_init =
     \<lparr>area = 0, Cx = 0, Cy = 0, Ix = 0, Iy = 0, Ixy = 0, Imin = 0, Imax = 0, theta = 0\<rparr>"

text \<open>
  \<open>struct Vector3D\<close>. The fields \<open>x\<close>, \<open>y\<close>, \<open>z\<close> are named \<open>vx\<close>, \<open>vy\<close>, \<open>vz\<close> here.
\<close>

record Vector3D =
  vx :: real
  vy :: real
  vz :: real

definition Vec :: "real \<Rightarrow> real \<Rightarrow> real \<Rightarrow> Vector3D" where
  "Vec a b c = \<lparr>vx = a, vy = b, vz = c\<rparr>"

definition vminus :: "Vector3D \<Rightarrow> Vector3D \<Rightarrow> Vector3D" where
  "vminus u v = Vec (vx u - vx v) (vy u - vy v) (vz u - vz v)"

definition Dot :: "Vector3D \<Rightarrow> Vector3D \<Rightarrow> real" where
  "Dot u v = vx u * vx v + vy u * vy v + vz u * vz v"

definition Cross :: "Vector3D \<Rightarrow> Vector3D \<Rightarrow> Vector3D" where
  "Cross u v =
     Vec (vy u * vz v - vz u * vy v) (vz u * vx v - vx u * vz v) (vx u * vy v - vy u * vx v)"

text \<open>The argument of the root is a sum of three squares.\<close>

definition Length :: "Vector3D \<Rightarrow> real" where
  "Length u = sqrt (vx u * vx u + vy u * vy u + vz u * vz u)"

definition Normalize :: "Vector3D \<Rightarrow> Vector3D" where
  "Normalize u =
     (let len = Length u in
      if len > 1 / 10 ^ 10 then Vec (vx u / len) (vy u / len) (vz u / len)
      else Vec 0 0 0)"

section \<open>AreaMomentsCalculator.cpp\<close>

subsection \<open>Private helpers\<close>

definition SignedTriangleArea :: "real \<Rightarrow> real \<Rightarrow> real \<Rightarrow> real \<Rightarrow> real \<Rightarrow> real \<Rightarrow> real" where
  "SignedTriangleArea x1 y1 x2 y2 x3 y3 =
     0.5 * ((x2 - x1) * (y3 - y1) - (x3 - x1) * (y2 - y1))"

definition TriangleCentroid ::
  "real \<Rightarrow> real \<Rightarrow> real \<Rightarrow> real \<Rightarrow> real \<Rightarrow> real \<Rightarrow> real \<times> real" where
  "TriangleCentroid x1 y1 x2 y2 x3 y3 = ((x1 + x2 + x3) / 3.0, (y1 + y2 + y3) / 3.0)"

definition TriangleMomentsAboutOrigin ::
  "real \<Rightarrow> real \<Rightarrow> real \<Rightarrow> real \<Rightarrow> real \<Rightarrow> real \<Rightarrow> real \<Rightarrow> real \<times> real \<times> real" where
  "TriangleMomentsAboutOrigin x1 y1 x2 y2 x3 y3 a =
     ((a / 6.0) * (y1 * y1 + y2 * y2 + y3 * y3 + y1 * y2 + y2 * y3 + y3 * y1),
      (a / 6.0) * (x1 * x1 + x2 * x2 + x3 * x3 + x1 * x2 + x2 * x3 + x3 * x1),
      (a / 12.0) * (x1 * (2 * y1 + y2 + y3) + x2 * (y1 + 2 * y2 + y3) + x3 * (y1 + y2 + 2 * y3)))"

subsection \<open>Calculate\<close>

text \<open>
  The six reads at the head of both loop bodies: the three indices of triangle \<open>t\<close> and
  the coordinates of the three vertices they name.
\<close>

type_synonym triangle2 = "real \<times> real \<times> real \<times> real \<times> real \<times> real"

definition triangle_at :: "real list \<Rightarrow> int list \<Rightarrow> nat \<Rightarrow> triangle2 option" where
  "triangle_at vertices2D indices t =
     do {
       i0 \<leftarrow> read_at indices (int t * 3);
       i1 \<leftarrow> read_at indices (int t * 3 + 1);
       i2 \<leftarrow> read_at indices (int t * 3 + 2);
       x1 \<leftarrow> read_at vertices2D (i0 * 2);
       y1 \<leftarrow> read_at vertices2D (i0 * 2 + 1);
       x2 \<leftarrow> read_at vertices2D (i1 * 2);
       y2 \<leftarrow> read_at vertices2D (i1 * 2 + 1);
       x3 \<leftarrow> read_at vertices2D (i2 * 2);
       y3 \<leftarrow> read_at vertices2D (i2 * 2 + 1);
       Some (x1, y1, x2, y2, x3, y3)
     }"

text \<open>First pass: total signed area and the area-weighted centroid sums.\<close>

function first_pass ::
  "real list \<Rightarrow> int list \<Rightarrow> nat \<Rightarrow> nat \<Rightarrow> real \<times> real \<times> real \<Rightarrow> (real \<times> real \<times> real) option" where
  "first_pass vertices2D indices numTriangles t (totalArea, sumCx, sumCy) =
     (if t < numTriangles then
        (case triangle_at vertices2D indices t of
           None \<Rightarrow> None
         | Some (x1, y1, x2, y2, x3, y3) \<Rightarrow>
             (let a = SignedTriangleArea x1 y1 x2 y2 x3 y3;
                  (cx, cy) = TriangleCentroid x1 y1 x2 y2 x3 y3
              in first_pass vertices2D indices numTriangles (t + 1)
                   (totalArea + a, sumCx + a * cx, sumCy + a * cy)))
      else Some (totalArea, sumCx, sumCy))"
  by pat_completeness auto
termination
  by (relation "measure (\<lambda>(vertices2D, indices, numTriangles, t, acc). numTriangles - t)") auto

declare first_pass.simps [simp del]

text \<open>Second pass: the moments about the origin.\<close>

function second_pass ::
  "real list \<Rightarrow> int list \<Rightarrow> nat \<Rightarrow> nat \<Rightarrow> real \<times> real \<times> real \<Rightarrow> (real \<times> real \<times> real) option" where
  "second_pass vertices2D indices numTriangles t (Ix_origin, Iy_origin, Ixy_origin) =
     (if t < numTriangles then
        (case triangle_at vertices2D indices t of
           None \<Rightarrow> None
         | Some (x1, y1, x2, y2, x3, y3) \<Rightarrow>
             (let a = SignedTriangleArea x1 y1 x2 y2 x3 y3;
                  (Ix_tri, Iy_tri, Ixy_tri) = TriangleMomentsAboutOrigin x1 y1 x2 y2 x3 y3 a
              in second_pass vertices2D indices numTriangles (t + 1)
                   (Ix_origin + Ix_tri, Iy_origin + Iy_tri, Ixy_origin + Ixy_tri)))
      else Some (Ix_origin, Iy_origin, Ixy_origin))"
  by pat_completeness auto
termination
  by (relation "measure (\<lambda>(vertices2D, indices, numTriangles, t, acc). numTriangles - t)") auto

declare second_pass.simps [simp del]

text \<open>
  The principal solve at the end of \<open>Calculate\<close>, applied to the record that already holds
  area, centroid and the centroidal moments. The argument of the root is a sum of two
  squares.
\<close>

definition principal :: "AreaMomentsResult \<Rightarrow> AreaMomentsResult" where
  "principal r =
     (let Iavg = (Ix r + Iy r) / 2.0;
          Idiff = (Ix r - Iy r) / 2.0;
          R = sqrt (Idiff * Idiff + Ixy r * Ixy r)
      in r\<lparr>Imax := Iavg + R, Imin := Iavg - R,
            theta := (if \<bar>Ixy r\<bar> < 1 / 10 ^ 15 \<and> \<bar>Idiff\<bar> < 1 / 10 ^ 15 then 0
                      else 0.5 * atan2 (- 2.0 * Ixy r) (Ix r - Iy r))\<rparr>)"

definition Calculate :: "real list \<Rightarrow> int list \<Rightarrow> AreaMomentsResult option" where
  "Calculate vertices2D indices =
     (let result = AreaMomentsResult_init in
      if vertices2D = [] \<or> indices = [] then Some result
      else
        let numTriangles = length indices div 3 in
        if numTriangles = 0 then Some result
        else
          (case first_pass vertices2D indices numTriangles 0 (0, 0, 0) of
             None \<Rightarrow> None
           | Some (totalArea, sumCx, sumCy) \<Rightarrow>
               if \<bar>totalArea\<bar> < 1 / 10 ^ 15 then Some result
               else
                 (let result = result\<lparr>area := \<bar>totalArea\<bar>,
                                       Cx := sumCx / totalArea,
                                       Cy := sumCy / totalArea\<rparr>
                  in case second_pass vertices2D indices numTriangles 0 (0, 0, 0) of
                       None \<Rightarrow> None
                     | Some (Ix_origin, Iy_origin, Ixy_origin) \<Rightarrow>
                         (let result = result
                                \<lparr>Ix := Ix_origin - area result * Cy result * Cy result,
                                 Iy := Iy_origin - area result * Cx result * Cx result,
                                 Ixy := Ixy_origin - area result * Cx result * Cy result\<rparr>
                          in Some (principal result)))))"

subsection \<open>ProjectTo2D\<close>

text \<open>The three coordinates of vertex \<open>i\<close> of a flat 3D coordinate vector.\<close>

definition vertex3_at :: "real list \<Rightarrow> int \<Rightarrow> Vector3D option" where
  "vertex3_at vertices3D i =
     do {
       a \<leftarrow> read_at vertices3D (i * 3);
       b \<leftarrow> read_at vertices3D (i * 3 + 1);
       c \<leftarrow> read_at vertices3D (i * 3 + 2);
       Some (Vec a b c)
     }"

text \<open>The projection loop, with the basis vectors it projects onto as arguments.\<close>

function project_loop ::
  "real list \<Rightarrow> Vector3D \<Rightarrow> Vector3D \<Rightarrow> Vector3D \<Rightarrow> nat \<Rightarrow> nat \<Rightarrow> real list \<Rightarrow> real list option" where
  "project_loop vertices3D origin xAxis yAxis numVertices i vertices2D =
     (if i < numVertices then
        (case vertex3_at vertices3D (int i) of
           None \<Rightarrow> None
         | Some v \<Rightarrow>
             (let p = vminus v origin;
                  x2d = Dot p xAxis;
                  y2d = Dot p yAxis
              in project_loop vertices3D origin xAxis yAxis numVertices (i + 1)
                   (vertices2D @ [x2d, y2d])))
      else Some vertices2D)"
  by pat_completeness auto
termination
  by (relation "measure (\<lambda>(vertices3D, origin, xAxis, yAxis, numVertices, i, acc). numVertices - i)")
    auto

declare project_loop.simps [simp del]

definition ProjectTo2D :: "real list \<Rightarrow> Vector3D \<Rightarrow> Vector3D \<Rightarrow> real list option" where
  "ProjectTo2D vertices3D normal origin =
     (if vertices3D = [] then Some []
      else
        let numVertices = length vertices3D div 3;
            zAxis = Normalize normal;
            globalY = Vec 0 1 0;
            globalX = Vec 1 0 0;
            xAxis = (if \<bar>Dot zAxis globalY\<bar> < 0.9 then Normalize (Cross globalY zAxis)
                     else Normalize (Cross zAxis globalX));
            yAxis = Normalize (Cross zAxis xAxis)
        in project_loop vertices3D origin xAxis yAxis numVertices 0 [])"

subsection \<open>CalculateNormal\<close>

definition CalculateNormal :: "real list \<Rightarrow> int list \<Rightarrow> Vector3D option" where
  "CalculateNormal vertices3D indices =
     (if length indices < 3 \<or> length vertices3D < 9 then Some (Vec 0 0 1)
      else
        do {
          i0 \<leftarrow> read_at indices 0;
          i1 \<leftarrow> read_at indices 1;
          i2 \<leftarrow> read_at indices 2;
          v0 \<leftarrow> vertex3_at vertices3D i0;
          v1 \<leftarrow> vertex3_at vertices3D i1;
          v2 \<leftarrow> vertex3_at vertices3D i2;
          let edge1 = vminus v1 v0;
              edge2 = vminus v2 v0
          in Some (Normalize (Cross edge1 edge2))
        })"

section \<open>ImGuiAreaMomentsWindow.h: the result and selection records\<close>

text \<open>
  \<open>struct ImGuiAreaMomentsResult\<close>; every numeric field starts at 0. The fields \<open>area\<close>,
  \<open>Cx\<close> and \<open>Cy\<close> carry the suffix \<open>_f\<close> here, apart from the fields of the same name of
  \<open>AreaMomentsResult\<close>. \<open>Rx\<close>, \<open>Ry\<close>, \<open>Sx_min\<close> and \<open>Sy_min\<close> are the four fields that the
  calculation stage fills with a root or a quotient; they are of type \<^typ>\<open>real option\<close>,
  \<open>None\<close> standing for a \<open>double\<close> that is not a real number.
\<close>

record ImGuiAreaMomentsResult =
  area_f :: real
  perimeter :: real
  Cx_f :: real
  Cy_f :: real
  Ixx_origin :: real
  Ixy_origin :: real
  Iyy_origin :: real
  J_origin :: real
  Ix_centroid :: real
  Iy_centroid :: real
  Ixy_centroid :: real
  Ix_principal :: real
  Iy_principal :: real
  J_centroid :: real
  theta_deg :: real
  Rx :: "real option"
  Ry :: "real option"
  Sx_min :: "real option"
  Sy_min :: "real option"
  cx_max :: real
  cy_max :: real
  faceType :: string

definition ImGuiAreaMomentsResult_init :: ImGuiAreaMomentsResult where
  "ImGuiAreaMomentsResult_init =
     \<lparr>area_f = 0, perimeter = 0, Cx_f = 0, Cy_f = 0,
      Ixx_origin = 0, Ixy_origin = 0, Iyy_origin = 0, J_origin = 0,
      Ix_centroid = 0, Iy_centroid = 0, Ixy_centroid = 0,
      Ix_principal = 0, Iy_principal = 0, J_centroid = 0, theta_deg = 0,
      Rx = Some 0, Ry = Some 0, Sx_min = Some 0, Sy_min = Some 0,
      cx_max = 0, cy_max = 0, faceType = []\<rparr>"

text \<open>
  The face of the CAD host, as far as the calculation uses it: the facet data it returns
  for a tolerance (\<open>None\<close> when the call returns no array, the array cannot be accessed,
  or the call throws), and the type of its surface (\<open>None\<close> when there is no geometry or
  the call throws). A null \<open>pFace\<close> is \<open>None\<close>.
\<close>

datatype ADGeometryType =
  AD_PLANE | AD_CYLINDER | AD_CONE | AD_SPHERE | AD_TORUS | AD_BSURF | AD_OTHER

record IADFace =
  FacetData :: "real \<Rightarrow> real list option"
  SurfaceType :: "ADGeometryType option"

record ImGuiSelectionItem =
  name :: string
  pFace :: "IADFace option"
  result :: ImGuiAreaMomentsResult
  hasResult :: bool

section \<open>AreaMomentsCommand.cpp\<close>

subsection \<open>GetFaceTypeName\<close>

definition GetFaceTypeName :: "IADFace option \<Rightarrow> string" where
  "GetFaceTypeName face_ptr =
     (case face_ptr of
        None \<Rightarrow> ''Face''
      | Some face \<Rightarrow>
          (case SurfaceType face of
             None \<Rightarrow> ''Face''
           | Some AD_PLANE \<Rightarrow> ''Planar Face''
           | Some AD_CYLINDER \<Rightarrow> ''Cylindrical Face''
           | Some AD_CONE \<Rightarrow> ''Conical Face''
           | Some AD_SPHERE \<Rightarrow> ''Spherical Face''
           | Some AD_TORUS \<Rightarrow> ''Toroidal Face''
           | Some AD_BSURF \<Rightarrow> ''B-Spline Surface''
           | Some AD_OTHER \<Rightarrow> ''Face''))"

subsection \<open>ExtractFaceMesh\<close>

text \<open>
  One round of the inner loop: vertex \<open>v\<close> of the triangle at \<open>offset\<close> is copied from the
  facet data and given the next running index.
\<close>

definition push_vertex ::
  "real list \<Rightarrow> nat \<Rightarrow> nat \<Rightarrow> real list \<times> int list \<times> int \<Rightarrow> (real list \<times> int list \<times> int) option" where
  "push_vertex pData offset v s =
     (case s of (vertices3D, indices, vertexIndex) \<Rightarrow>
        do {
          a \<leftarrow> read_at pData (int (offset + v * 3));
          b \<leftarrow> read_at pData (int (offset + v * 3 + 1));
          c \<leftarrow> read_at pData (int (offset + v * 3 + 2));
          Some (vertices3D @ [a, b, c], indices @ [vertexIndex], vertexIndex + 1)
        })"

function facet_loop ::
  "real list \<Rightarrow> nat \<Rightarrow> nat \<Rightarrow> real list \<times> int list \<times> int \<Rightarrow> (real list \<times> int list \<times> int) option" where
  "facet_loop pData numTriangles t s =
     (if t < numTriangles then
        (let offset = t * 9 in
         case push_vertex pData offset 0 s of
           None \<Rightarrow> None
         | Some s0 \<Rightarrow>
             (case push_vertex pData offset 1 s0 of
                None \<Rightarrow> None
              | Some s1 \<Rightarrow>
                  (case push_vertex pData offset 2 s1 of
                     None \<Rightarrow> None
                   | Some s2 \<Rightarrow> facet_loop pData numTriangles (t + 1) s2)))
      else Some s)"
  by pat_completeness auto
termination
  by (relation "measure (\<lambda>(pData, numTriangles, t, s). numTriangles - t)") auto

declare facet_loop.simps [simp del]

text \<open>
  The function returns its verdict and writes three reference parameters; the embedding
  returns the verdict together with their values at the return. The parameters \<open>pFace\<close>
  and \<open>perimeter\<close> are written \<open>face_ptr\<close> and \<open>perim\<close>, apart from the record fields of
  these names.
\<close>

definition ExtractFaceMesh ::
  "IADFace option \<Rightarrow> real list \<Rightarrow> int list \<Rightarrow> real \<Rightarrow> (bool \<times> real list \<times> int list \<times> real) option" where
  "ExtractFaceMesh face_ptr vertices2D indices perim =
     (case face_ptr of
        None \<Rightarrow> Some (False, vertices2D, indices, perim)
      | Some face \<Rightarrow>
          (let perim = 0;
               surfaceTol = 0.001
           in case FacetData face surfaceTol of
                None \<Rightarrow> Some (False, vertices2D, indices, perim)
              | Some pData \<Rightarrow>
                  (let dataSize = length pData in
                   if dataSize < 10 then Some (False, vertices2D, indices, perim)
                   else
                     let numTriangles = dataSize div 9 in
                     if numTriangles \<le> 0 then Some (False, vertices2D, indices, perim)
                     else
                       do {
                         (vertices3D, indices, vertexIndex) \<leftarrow>
                           facet_loop pData numTriangles 0 ([], indices, 0);
                         normal \<leftarrow> CalculateNormal vertices3D indices;
                         origin \<leftarrow> vertex3_at vertices3D 0;
                         vertices2D \<leftarrow> ProjectTo2D vertices3D normal origin;
                         Some (vertices2D \<noteq> [], vertices2D, indices, perim)
                       })))"

subsection \<open>CalculateFace\<close>

text \<open>The loop over the 2D vertices that finds the extreme fiber distances.\<close>

function fiber_loop ::
  "real list \<Rightarrow> real \<Rightarrow> real \<Rightarrow> nat \<Rightarrow> real \<times> real \<Rightarrow> (real \<times> real) option" where
  "fiber_loop vertices2D cx cy i (cxm, cym) =
     (if i < length vertices2D then
        (case read_at vertices2D (int i) of
           None \<Rightarrow> None
         | Some a \<Rightarrow>
             (case read_at vertices2D (int i + 1) of
                None \<Rightarrow> None
              | Some b \<Rightarrow>
                  (let dx = \<bar>a - cx\<bar>;
                       dy = \<bar>b - cy\<bar>
                   in fiber_loop vertices2D cx cy (i + 2)
                        (if dx > cxm then dx else cxm, if dy > cym then dy else cym))))
      else Some (cxm, cym))"
  by pat_completeness auto
termination
  by (relation "measure (\<lambda>(vertices2D, cx, cy, i, acc). length vertices2D - i)") auto

declare fiber_loop.simps [simp del]

text \<open>
  \<open>r\<close> is a reference to the result record of the item, so a field that no assignment
  reaches keeps the value it had at the call.
\<close>

definition CalculateFace :: "ImGuiSelectionItem \<Rightarrow> (bool \<times> ImGuiSelectionItem) option" where
  "CalculateFace item =
     (if pFace item = None then Some (False, item)
      else
        (case ExtractFaceMesh (pFace item) [] [] 0 of
           None \<Rightarrow> None
         | Some (ok, vertices2D, indices, perim) \<Rightarrow>
             if \<not> ok then Some (False, item)
             else
               (case Calculate vertices2D indices of
                  None \<Rightarrow> None
                | Some basicResult \<Rightarrow>
                    (let r = result item;
                         r = r\<lparr>area_f := area basicResult, perimeter := perim,
                                Cx_f := Cx basicResult, Cy_f := Cy basicResult\<rparr>;
                         r = r\<lparr>Ixx_origin := Ix basicResult + area_f r * Cy_f r * Cy_f r,
                                Iyy_origin := Iy basicResult + area_f r * Cx_f r * Cx_f r,
                                Ixy_origin := Ixy basicResult + area_f r * Cx_f r * Cy_f r\<rparr>;
                         r = r\<lparr>J_origin := Ixx_origin r + Iyy_origin r,
                                J_centroid := Ix basicResult + Iy basicResult\<rparr>;
                         r = r\<lparr>Ix_centroid := Ix basicResult, Iy_centroid := Iy basicResult,
                                Ixy_centroid := Ixy basicResult\<rparr>;
                         r = r\<lparr>Ix_principal := Imin basicResult,
                                Iy_principal := Imax basicResult\<rparr>;
                         r = r\<lparr>theta_deg :=
                                  theta basicResult * 180.0 / 3.14159265358979323846\<rparr>;
                         r = (if area_f r > 1 / 10 ^ 10
                              then r\<lparr>Rx := c_div (Ix basicResult) (area_f r) \<bind> c_sqrt,
                                      Ry := c_div (Iy basicResult) (area_f r) \<bind> c_sqrt\<rparr>
                              else r);
                         r = r\<lparr>cx_max := 0, cy_max := 0\<rparr>
                     in case fiber_loop vertices2D (Cx_f r) (Cy_f r) 0 (cx_max r, cy_max r) of
                          None \<Rightarrow> None
                        | Some (cxm, cym) \<Rightarrow>
                            (let r = r\<lparr>cx_max := cxm, cy_max := cym\<rparr>;
                                 r = (if cy_max r > 1 / 10 ^ 10
                                      then r\<lparr>Sx_min := c_div (Ix basicResult) (cy_max r)\<rparr>
                                      else r);
                                 r = (if cx_max r > 1 / 10 ^ 10
                                      then r\<lparr>Sy_min := c_div (Iy basicResult) (cx_max r)\<rparr>
                                      else r);
                                 r = r\<lparr>faceType := GetFaceTypeName (pFace item)\<rparr>
                             in Some (True, item\<lparr>result := r, hasResult := True\<rparr>))))))"

section \<open>Notions used in the statements\<close>

subsection \<open>Well-formed meshes and the sums over their triangles\<close>

text \<open>
  An index is usable for a 2D coordinate vector when both coordinates it names are inside
  the vector; a mesh is well formed when every index that the loops of \<open>Calculate\<close> read
  (the first \<open>3 * (length indices div 3)\<close> ones) is usable. \<open>tri\<close> is triangle \<open>t\<close> of a
  well-formed mesh, and \<open>tri_sum f\<close> adds \<open>f\<close> over all its triangles.
\<close>

definition index_ok :: "real list \<Rightarrow> int \<Rightarrow> bool" where
  "index_ok vertices2D i = (0 \<le> i \<and> i * 2 + 1 < int (length vertices2D))"

definition mesh_ok :: "real list \<Rightarrow> int list \<Rightarrow> bool" where
  "mesh_ok vertices2D indices =
     list_all (index_ok vertices2D) (take (3 * (length indices div 3)) indices)"

definition tri :: "real list \<Rightarrow> int list \<Rightarrow> nat \<Rightarrow> triangle2" where
  "tri vertices2D indices t =
     (let i0 = indices ! (3 * t); i1 = indices ! (3 * t + 1); i2 = indices ! (3 * t + 2)
      in (vertices2D ! nat (i0 * 2), vertices2D ! nat (i0 * 2 + 1),
          vertices2D ! nat (i1 * 2), vertices2D ! nat (i1 * 2 + 1),
          vertices2D ! nat (i2 * 2), vertices2D ! nat (i2 * 2 + 1)))"

definition tri_area :: "triangle2 \<Rightarrow> real" where
  "tri_area T = (case T of (x1, y1, x2, y2, x3, y3) \<Rightarrow> SignedTriangleArea x1 y1 x2 y2 x3 y3)"

definition tri_mx :: "triangle2 \<Rightarrow> real" where
  "tri_mx T = (case T of (x1, y1, x2, y2, x3, y3) \<Rightarrow>
     SignedTriangleArea x1 y1 x2 y2 x3 y3 * fst (TriangleCentroid x1 y1 x2 y2 x3 y3))"

definition tri_my :: "triangle2 \<Rightarrow> real" where
  "tri_my T = (case T of (x1, y1, x2, y2, x3, y3) \<Rightarrow>
     SignedTriangleArea x1 y1 x2 y2 x3 y3 * snd (TriangleCentroid x1 y1 x2 y2 x3 y3))"

definition tri_Ix :: "triangle2 \<Rightarrow> real" where
  "tri_Ix T = (case T of (x1, y1, x2, y2, x3, y3) \<Rightarrow>
     fst (TriangleMomentsAboutOrigin x1 y1 x2 y2 x3 y3 (SignedTriangleArea x1 y1 x2 y2 x3 y3)))"

definition tri_Iy :: "triangle2 \<Rightarrow> real" where
  "tri_Iy T = (case T of (x1, y1, x2, y2, x3, y3) \<Rightarrow>
     fst (snd (TriangleMomentsAboutOrigin x1 y1 x2 y2 x3 y3 (SignedTriangleArea x1 y1 x2 y2 x3 y3))))"

definition tri_Ixy :: "triangle2 \<Rightarrow> real" where
  "tri_Ixy T = (case T of (x1, y1, x2, y2, x3, y3) \<Rightarrow>
     snd (snd (TriangleMomentsAboutOrigin x1 y1 x2 y2 x3 y3 (SignedTriangleArea x1 y1 x2 y2 x3 y3))))"

definition tri_sum :: "(triangle2 \<Rightarrow> real) \<Rightarrow> real list \<Rightarrow> int list \<Rightarrow> real" where
  "tri_sum f vertices2D indices = (\<Sum>t < length indices div 3. f (tri vertices2D indices t))"


text \<open>The result record in closed form, from the five sums over the triangles.\<close>

definition moments :: "real list \<Rightarrow> int list \<Rightarrow> AreaMomentsResult" where
  "moments vs ix =
     (let A = tri_sum tri_area vs ix;
          cx = tri_sum tri_mx vs ix / A;
          cy = tri_sum tri_my vs ix / A
      in if \<bar>A\<bar> < 1 / 10 ^ 15 then AreaMomentsResult_init
         else principal
           \<lparr>area = \<bar>A\<bar>, Cx = cx, Cy = cy,
            Ix = tri_sum tri_Ix vs ix - \<bar>A\<bar> * cy * cy,
            Iy = tri_sum tri_Iy vs ix - \<bar>A\<bar> * cx * cx,
            Ixy = tri_sum tri_Ixy vs ix - \<bar>A\<bar> * cx * cy,
            Imin = 0, Imax = 0, theta = 0\<rparr>)"


subsection \<open>3D vertices\<close>

text \<open>
  Vertex \<open>k\<close> of a flat 3D coordinate vector, the indices whose three coordinates lie inside
  the vector, and the pair of 2D coordinates of vertex \<open>k\<close> with respect to two axes.
\<close>

definition vert3 :: "real list \<Rightarrow> nat \<Rightarrow> Vector3D" where
  "vert3 vertices3D k = Vec (vertices3D ! (3 * k)) (vertices3D ! (3 * k + 1)) (vertices3D ! (3 * k + 2))"

definition index3_ok :: "real list \<Rightarrow> int \<Rightarrow> bool" where
  "index3_ok vertices3D i = (0 \<le> i \<and> i * 3 + 2 < int (length vertices3D))"

definition project_pair :: "real list \<Rightarrow> Vector3D \<Rightarrow> Vector3D \<Rightarrow> Vector3D \<Rightarrow> nat \<Rightarrow> real list" where
  "project_pair vertices3D origin xAxis yAxis k =
     [Dot (vminus (vert3 vertices3D k) origin) xAxis, Dot (vminus (vert3 vertices3D k) origin) yAxis]"

subsection \<open>Reversing the winding\<close>

text \<open>
  Reversing the winding of every triangle exchanges two of the three indices of every
  complete triple of the index list; \<open>swap\<close> says which two. \<open>swap_tri\<close> is the same
  exchange on the corners of one triangle.
\<close>

datatype swap = Swap01 | Swap12 | Swap02

fun reverse_winding :: "swap \<Rightarrow> int list \<Rightarrow> int list" where
  "reverse_winding w (a # b # c # rest) =
     (case w of Swap01 \<Rightarrow> [b, a, c] | Swap12 \<Rightarrow> [a, c, b] | Swap02 \<Rightarrow> [c, b, a])
       @ reverse_winding w rest"
| "reverse_winding w xs = xs"

fun swap_tri :: "swap \<Rightarrow> triangle2 \<Rightarrow> triangle2" where
  "swap_tri Swap01 (x1, y1, x2, y2, x3, y3) = (x2, y2, x1, y1, x3, y3)"
| "swap_tri Swap12 (x1, y1, x2, y2, x3, y3) = (x1, y1, x3, y3, x2, y2)"
| "swap_tri Swap02 (x1, y1, x2, y2, x3, y3) = (x3, y3, x2, y2, x1, y1)"

subsection \<open>The basis of the projection\<close>

text \<open>The two in-plane axes that \<open>ProjectTo2D\<close> builds from a normal.\<close>

definition basis_of :: "Vector3D \<Rightarrow> Vector3D \<times> Vector3D" where
  "basis_of normal =
     (let zAxis = Normalize normal;
          xAxis = (if \<bar>Dot zAxis (Vec 0 1 0)\<bar> < 0.9 then Normalize (Cross (Vec 0 1 0) zAxis)
                   else Normalize (Cross zAxis (Vec 1 0 0)));
          yAxis = Normalize (Cross zAxis xAxis)
      in (xAxis, yAxis))"


subsection \<open>The derived section properties in closed form\<close>

text \<open>
  The record that \<open>CalculateFace\<close> leaves in the item, from the record \<open>r0\<close> the item held
  at the call, the result \<open>b\<close> of \<open>Calculate\<close>, the perimeter \<open>p\<close> handed back by the
  mesh extraction, the two extreme fiber distances and the face type name.
\<close>

definition face_result ::
  "ImGuiAreaMomentsResult \<Rightarrow> AreaMomentsResult \<Rightarrow> real \<Rightarrow> real \<Rightarrow> real \<Rightarrow> string \<Rightarrow> ImGuiAreaMomentsResult" where
  "face_result r0 b p cxm cym ft =
     r0\<lparr>area_f := area b, perimeter := p, Cx_f := Cx b, Cy_f := Cy b,
        Ixx_origin := Ix b + area b * Cy b * Cy b,
        Ixy_origin := Ixy b + area b * Cx b * Cy b,
        Iyy_origin := Iy b + area b * Cx b * Cx b,
        J_origin := (Ix b + area b * Cy b * Cy b) + (Iy b + area b * Cx b * Cx b),
        Ix_centroid := Ix b, Iy_centroid := Iy b, Ixy_centroid := Ixy b,
        Ix_principal := Imin b, Iy_principal := Imax b,
        J_centroid := Ix b + Iy b,
        theta_deg := theta b * 180.0 / 3.14159265358979323846,
        Rx := (if area b > 1 / 10 ^ 10 then c_sqrt (Ix b / area b) else Rx r0),
        Ry := (if area b > 1 / 10 ^ 10 then c_sqrt (Iy b / area b) else Ry r0),
        Sx_min := (if cym > 1 / 10 ^ 10 then Some (Ix b / cym) else Sx_min r0),
        Sy_min := (if cxm > 1 / 10 ^ 10 then Some (Iy b / cxm) else Sy_min r0),
        cx_max := cxm, cy_max := cym, faceType := ft\<rparr>"


subsection \<open>Two faces\<close>

text \<open>
  A face whose facet data hold the triangle (0,0,0), (1,0,0), (0,1,0) and, wound the
  other way round, the larger triangle (0,0,0), (0,2,0), (2,0,0); and a face whose facet
  data hold the unit square in two triangles of the same winding. Each comes with a
  freshly added selection item.
\<close>

definition mixed_face :: IADFace where
  "mixed_face = \<lparr>FacetData = (\<lambda>tol. Some [0, 0, 0, 1, 0, 0, 0, 1, 0, 0, 0, 0, 0, 2, 0, 2, 0, 0]),
                  SurfaceType = Some AD_PLANE\<rparr>"

definition mixed_item :: ImGuiSelectionItem where
  "mixed_item = \<lparr>name = ''Planar Face 1'', pFace = Some mixed_face,
                  result = ImGuiAreaMomentsResult_init, hasResult = False\<rparr>"


definition square_face :: IADFace where
  "square_face = \<lparr>FacetData = (\<lambda>tol. Some [0, 0, 0, 1, 0, 0, 1, 1, 0, 0, 0, 0, 1, 1, 0, 0, 1, 0]),
                   SurfaceType = Some AD_PLANE\<rparr>"

definition square_item :: ImGuiSelectionItem where
  "square_item = \<lparr>name = ''Planar Face 1'', pFace = Some square_face,
                   result = ImGuiAreaMomentsResult_init, hasResult = False\<rparr>"

subsection \<open>Bases of a plane and rotations\<close>

text \<open>
  \<open>xA\<close>, \<open>yA\<close> is a right-handed orthonormal basis of the plane with unit normal \<open>zA\<close>:
  both are unit vectors, they are orthogonal, and their cross product is \<open>zA\<close>.
\<close>

definition right_handed_basis :: "Vector3D \<Rightarrow> Vector3D \<Rightarrow> Vector3D \<Rightarrow> bool" where
  "right_handed_basis xA yA zA =
     (Dot xA xA = 1 \<and> Dot yA yA = 1 \<and> Dot xA yA = 0 \<and> Cross xA yA = zA)"


text \<open>
  A triangle turned by the rotation with cosine \<open>c\<close> and sine \<open>s\<close>, and two 2D coordinate
  vectors of which the second holds the vertices of the first turned by that rotation.
\<close>

fun rot_tri :: "real \<Rightarrow> real \<Rightarrow> triangle2 \<Rightarrow> triangle2" where
  "rot_tri c s (x1, y1, x2, y2, x3, y3) =
     (c * x1 + s * y1, - s * x1 + c * y1, c * x2 + s * y2, - s * x2 + c * y2,
      c * x3 + s * y3, - s * x3 + c * y3)"

definition rotated :: "real \<Rightarrow> real \<Rightarrow> real list \<Rightarrow> real list \<Rightarrow> bool" where
  "rotated c s v1 v2 =
     (length v2 = length v1 \<and>
      (\<forall>k. 2 * k + 1 < length v1 \<longrightarrow>
         v2 ! (2 * k) = c * v1 ! (2 * k) + s * v1 ! (2 * k + 1) \<and>
         v2 ! (2 * k + 1) = - s * v1 ! (2 * k) + c * v1 ! (2 * k + 1)))"

subsection \<open>Triangulations of a polygon\<close>

text \<open>
  A polygon is the list of its corners in order. A triangle has three directed edges, in
  the order of its winding; a mesh has the directed edges of all its triangles. The net
  count of a directed edge in a list is the number of times it occurs minus the number of
  times its reverse occurs. A well-formed mesh triangulates a polygon when the net counts
  of its edges are those of the boundary cycle of the polygon: every directed edge of a
  triangle is an edge of the boundary, in the direction of the boundary, or is met by the
  reversed edge of a neighbouring triangle. This is what a triangulation of the polygon
  by non-crossing diagonals (a fan, a strip) is when all its triangles are wound the way
  the corners of the polygon are listed. \<open>same_boundary\<close> compares the net counts on the
  edges that occur; on all other edges they are 0 on both sides.
\<close>

type_synonym point2 = "real \<times> real"
type_synonym edge2 = "point2 \<times> point2"

fun tri_edges :: "triangle2 \<Rightarrow> edge2 list" where
  "tri_edges (x1, y1, x2, y2, x3, y3) =
     [((x1, y1), (x2, y2)), ((x2, y2), (x3, y3)), ((x3, y3), (x1, y1))]"

definition mesh_edges :: "real list \<Rightarrow> int list \<Rightarrow> edge2 list" where
  "mesh_edges vs ix = concat (map (\<lambda>t. tri_edges (tri vs ix t)) [0..<length ix div 3])"

definition polygon_edges :: "point2 list \<Rightarrow> edge2 list" where
  "polygon_edges ps = zip ps (rotate1 ps)"

fun rev_edge :: "edge2 \<Rightarrow> edge2" where
  "rev_edge (p, q) = (q, p)"

definition net :: "edge2 list \<Rightarrow> edge2 \<Rightarrow> int" where
  "net es e = int (count_list es e) - int (count_list es (rev_edge e))"

definition same_boundary :: "edge2 list \<Rightarrow> edge2 list \<Rightarrow> bool" where
  "same_boundary es fs = list_all (\<lambda>e. net es e = net fs e) (es @ fs)"

definition triangulates :: "point2 list \<Rightarrow> real list \<Rightarrow> int list \<Rightarrow> bool" where
  "triangulates ps vs ix = (mesh_ok vs ix \<and> same_boundary (mesh_edges vs ix) (polygon_edges ps))"


text \<open>
  A mesh triangulates a polygon with a winding that is consistent within the mesh when it
  triangulates the polygon as listed or as listed in reverse.
\<close>

definition consistently_triangulates :: "point2 list \<Rightarrow> real list \<Rightarrow> int list \<Rightarrow> bool" where
  "consistently_triangulates ps vs ix = (triangulates ps vs ix \<or> triangulates (rev ps) vs ix)"


text \<open>
  The contribution of one directed edge to each of the six sums of \<open>Calculate\<close>: that of
  the triangle spanned by the origin and the edge.
\<close>

fun edge_area :: "edge2 \<Rightarrow> real" where
  "edge_area ((px, py), (qx, qy)) = (px * qy - qx * py) / 2"

fun edge_mx :: "edge2 \<Rightarrow> real" where
  "edge_mx ((px, py), (qx, qy)) = (px * qy - qx * py) * (px + qx) / 6"

fun edge_my :: "edge2 \<Rightarrow> real" where
  "edge_my ((px, py), (qx, qy)) = (px * qy - qx * py) * (py + qy) / 6"

fun edge_Ix :: "edge2 \<Rightarrow> real" where
  "edge_Ix ((px, py), (qx, qy)) = (px * qy - qx * py) * (py * py + py * qy + qy * qy) / 12"

fun edge_Iy :: "edge2 \<Rightarrow> real" where
  "edge_Iy ((px, py), (qx, qy)) = (px * qy - qx * py) * (px * px + px * qx + qx * qx) / 12"

fun edge_Ixy :: "edge2 \<Rightarrow> real" where
  "edge_Ixy ((px, py), (qx, qy)) =
     (px * qy - qx * py) * (2 * px * py + px * qy + qx * py + 2 * qx * qy) / 24"


text \<open>The unit square, counter-clockwise.\<close>

definition unit_square :: "point2 list" where
  "unit_square = [(0, 0), (1, 0), (1, 1), (0, 1)]"

section \<open>Properties\<close>

subsection \<open>The loops of Calculate as sums\<close>

lemma read_at_Some: "0 \<le> i \<Longrightarrow> i < int (length xs) \<Longrightarrow> read_at xs i = Some (xs ! nat i)"
  by (simp add: read_at_def)

lemma mesh_ok_index:
  assumes "mesh_ok vs ix" "k < 3 * (length ix div 3)"
  shows "index_ok vs (ix ! k)"
proof -
  have "k < length (take (3 * (length ix div 3)) ix)" using assms(2) by simp
  then have "index_ok vs (take (3 * (length ix div 3)) ix ! k)"
    using assms(1) unfolding mesh_ok_def list_all_length by blast
  then show ?thesis using assms(2) by simp
qed

lemma triangle_at_ok:
  assumes "mesh_ok vs ix" "t < length ix div 3"
  shows "triangle_at vs ix t = Some (tri vs ix t)"
proof -
  have k: "3 * t < 3 * (length ix div 3)" "3 * t + 1 < 3 * (length ix div 3)"
    "3 * t + 2 < 3 * (length ix div 3)" using assms(2) by auto
  have l: "3 * t + 2 < length ix" using assms(2) by auto
  have r0: "read_at ix (int t * 3) = Some (ix ! (3 * t))"
    using l by (simp add: read_at_def nat_mult_distrib mult.commute)
  have r1: "read_at ix (int t * 3 + 1) = Some (ix ! (3 * t + 1))"
    using l by (simp add: read_at_def nat_add_distrib nat_mult_distrib mult.commute)
  have r2: "read_at ix (int t * 3 + 2) = Some (ix ! (3 * t + 2))"
    using l by (simp add: read_at_def nat_add_distrib nat_mult_distrib mult.commute)
  have v: "\<And>i. index_ok vs i \<Longrightarrow> read_at vs (i * 2) = Some (vs ! nat (i * 2))
      \<and> read_at vs (i * 2 + 1) = Some (vs ! nat (i * 2 + 1))"
    by (simp add: index_ok_def read_at_def)
  show ?thesis
    unfolding triangle_at_def tri_def Let_def
    using v[OF mesh_ok_index[OF assms(1) k(1)]] v[OF mesh_ok_index[OF assms(1) k(2)]]
      v[OF mesh_ok_index[OF assms(1) k(3)]] r0 r1 r2
    by simp
qed

lemma first_pass_sum:
  assumes "\<And>t'. t' < n \<Longrightarrow> triangle_at vs ix t' = Some (T t')"
  shows "t \<le> n \<Longrightarrow> first_pass vs ix n t (a, b, c) =
    Some (a + (\<Sum>k = t..<n. tri_area (T k)), b + (\<Sum>k = t..<n. tri_mx (T k)),
          c + (\<Sum>k = t..<n. tri_my (T k)))"
proof (induction "n - t" arbitrary: t a b c)
  case 0
  then show ?case by (simp add: first_pass.simps)
next
  case (Suc d)
  then have lt: "t < n" by simp
  obtain x1 y1 x2 y2 x3 y3 where T: "T t = (x1, y1, x2, y2, x3, y3)"
    by (cases "T t") auto
  have ih: "\<And>a b c. first_pass vs ix n (Suc t) (a, b, c) =
    Some (a + (\<Sum>k = Suc t..<n. tri_area (T k)), b + (\<Sum>k = Suc t..<n. tri_mx (T k)),
          c + (\<Sum>k = Suc t..<n. tri_my (T k)))"
    using Suc(1)[of "Suc t"] Suc(2) lt by simp
  show ?case
    using lt assms[OF lt] T ih
    by (subst first_pass.simps) (simp add: sum.atLeast_Suc_lessThan tri_area_def tri_mx_def tri_my_def
        TriangleCentroid_def Let_def)
qed

lemma second_pass_sum:
  assumes "\<And>t'. t' < n \<Longrightarrow> triangle_at vs ix t' = Some (T t')"
  shows "t \<le> n \<Longrightarrow> second_pass vs ix n t (a, b, c) =
    Some (a + (\<Sum>k = t..<n. tri_Ix (T k)), b + (\<Sum>k = t..<n. tri_Iy (T k)),
          c + (\<Sum>k = t..<n. tri_Ixy (T k)))"
proof (induction "n - t" arbitrary: t a b c)
  case 0
  then show ?case by (simp add: second_pass.simps)
next
  case (Suc d)
  then have lt: "t < n" by simp
  obtain x1 y1 x2 y2 x3 y3 where T: "T t = (x1, y1, x2, y2, x3, y3)"
    by (cases "T t") auto
  have ih: "\<And>a b c. second_pass vs ix n (Suc t) (a, b, c) =
    Some (a + (\<Sum>k = Suc t..<n. tri_Ix (T k)), b + (\<Sum>k = Suc t..<n. tri_Iy (T k)),
          c + (\<Sum>k = Suc t..<n. tri_Ixy (T k)))"
    using Suc(1)[of "Suc t"] Suc(2) lt by simp
  show ?case
    using lt assms[OF lt] T ih
    by (subst second_pass.simps) (simp add: sum.atLeast_Suc_lessThan tri_Ix_def tri_Iy_def tri_Ixy_def
        TriangleMomentsAboutOrigin_def Let_def)
qed

lemma mesh_ok_nonempty:
  assumes "mesh_ok vs ix" "0 < length ix div 3"
  shows "vs \<noteq> [] \<and> ix \<noteq> []"
proof -
  have "index_ok vs (ix ! 0)" using mesh_ok_index[OF assms(1), of 0] assms(2) by simp
  then have "vs \<noteq> []" by (auto simp: index_ok_def)
  moreover have "ix \<noteq> []" using assms(2) by auto
  ultimately show ?thesis by simp
qed

lemma Calculate_moments:
  assumes "mesh_ok vs ix"
  shows "Calculate vs ix = Some (moments vs ix)"
proof (cases "length ix div 3 = 0")
  case True
  then have "tri_sum tri_area vs ix = 0" by (simp add: tri_sum_def)
  then have "moments vs ix = AreaMomentsResult_init" by (simp add: moments_def)
  then show ?thesis using True by (simp add: Calculate_def)
next
  case False
  then have ne: "vs \<noteq> []" "ix \<noteq> []" using mesh_ok_nonempty[OF assms] by auto
  have T: "\<And>t'. t' < length ix div 3 \<Longrightarrow> triangle_at vs ix t' = Some (tri vs ix t')"
    using triangle_at_ok[OF assms] by simp
  have f: "first_pass vs ix (length ix div 3) 0 (0, 0, 0) =
     Some (tri_sum tri_area vs ix, tri_sum tri_mx vs ix, tri_sum tri_my vs ix)"
    using first_pass_sum[of "length ix div 3" vs ix "tri vs ix" 0 0 0 0, OF T]
    by (simp add: tri_sum_def lessThan_atLeast0)
  have s: "second_pass vs ix (length ix div 3) 0 (0, 0, 0) =
     Some (tri_sum tri_Ix vs ix, tri_sum tri_Iy vs ix, tri_sum tri_Ixy vs ix)"
    using second_pass_sum[of "length ix div 3" vs ix "tri vs ix" 0 0 0 0, OF T]
    by (simp add: tri_sum_def lessThan_atLeast0)
  show ?thesis
    unfolding Calculate_def moments_def Let_def
    using ne False f s by (simp add: AreaMomentsResult_init_def)
qed


lemma tri_sum_1: "length ix div 3 = 1 \<Longrightarrow> tri_sum f vs ix = f (tri vs ix 0)"
  by (simp add: tri_sum_def)

lemma tri_sum_2: "length ix div 3 = 2 \<Longrightarrow> tri_sum f vs ix = f (tri vs ix 0) + f (tri vs ix 1)"
  by (simp add: tri_sum_def lessThan_Suc numeral_2_eq_2)

subsection \<open>The unit square\<close>

text \<open>
  Claim C2. On the vertex list (0,0), (1,0), (1,1), (0,1) with the two triangles (0,1,2)
  and (0,2,3), \<open>Calculate\<close> returns area 1, centroid (1/2, 1/2), Ix = Iy = 1/12, Ixy = 0,
  Imin = Imax = 1/12 and theta = 0. The value of theta is the one of the special case:
  Ixy and Idiff are both 0 here.
\<close>

theorem Calculate_unit_square:
  "Calculate [0, 0, 1, 0, 1, 1, 0, 1] [0, 1, 2, 0, 2, 3] =
     Some \<lparr>area = 1, Cx = 0.5, Cy = 0.5, Ix = 1 / 12, Iy = 1 / 12, Ixy = 0,
           Imin = 1 / 12, Imax = 1 / 12, theta = 0\<rparr>"
  by (simp add: Calculate_def first_pass.simps second_pass.simps triangle_at_def read_at_def
      SignedTriangleArea_def TriangleCentroid_def TriangleMomentsAboutOrigin_def principal_def
      AreaMomentsResult_init_def Let_def)

subsection \<open>The zero result\<close>



subsection \<open>Sign of the area and order of the principal moments\<close>

lemma principal_order: "Imin (principal r) \<le> Imax (principal r)"
proof -
  have "0 \<le> sqrt ((Ix r - Iy r) / 2 * ((Ix r - Iy r) / 2) + Ixy r * Ixy r)"
    by simp
  then show ?thesis by (simp add: principal_def Let_def)
qed

lemma principal_keeps: "area (principal r) = area r" "Cx (principal r) = Cx r"
  "Cy (principal r) = Cy r" "Ix (principal r) = Ix r" "Iy (principal r) = Iy r"
  "Ixy (principal r) = Ixy r"
  by (simp_all add: principal_def Let_def)

lemma Calculate_cases:
  assumes "Calculate vs ix = Some r"
  shows "r = AreaMomentsResult_init \<or>
    (\<exists>q. r = principal q \<and> 0 \<le> area q)"
proof -
  have "r = AreaMomentsResult_init \<or>
    (\<exists>a cx cy jx jy jxy. r = principal \<lparr>area = \<bar>a\<bar>, Cx = cx, Cy = cy, Ix = jx, Iy = jy,
       Ixy = jxy, Imin = 0, Imax = 0, theta = 0\<rparr>)"
    using assms unfolding Calculate_def Let_def AreaMomentsResult_init_def
    by (simp split: if_splits option.splits prod.splits) blast
  then show ?thesis
  proof
    assume "r = AreaMomentsResult_init"
    then show ?thesis by simp
  next
    assume "\<exists>a cx cy jx jy jxy. r = principal \<lparr>area = \<bar>a\<bar>, Cx = cx, Cy = cy, Ix = jx, Iy = jy,
       Ixy = jxy, Imin = 0, Imax = 0, theta = 0\<rparr>"
    then obtain a cx cy jx jy jxy where r: "r = principal \<lparr>area = \<bar>a\<bar>, Cx = cx, Cy = cy,
       Ix = jx, Iy = jy, Ixy = jxy, Imin = 0, Imax = 0, theta = 0\<rparr>" by blast
    have "0 \<le> area \<lparr>area = \<bar>a\<bar>, Cx = cx, Cy = cy,
       Ix = jx, Iy = jy, Ixy = jxy, Imin = 0, Imax = 0, theta = 0\<rparr>" by simp
    with r show ?thesis by blast
  qed
qed

text \<open>
  Claim C8. Every record that \<open>Calculate\<close> returns, for any vertex list and any index
  list, has a non-negative area and has Imin at most Imax.
\<close>

theorem Calculate_area_nonneg_Imin_le_Imax:
  "Calculate vs ix = Some r \<Longrightarrow> 0 \<le> area r \<and> Imin r \<le> Imax r"
proof -
  assume "Calculate vs ix = Some r"
  then have "r = AreaMomentsResult_init \<or> (\<exists>q. r = principal q \<and> 0 \<le> area q)"
    by (rule Calculate_cases)
  then show ?thesis
  proof
    assume "r = AreaMomentsResult_init"
    then show ?thesis by (simp add: AreaMomentsResult_init_def)
  next
    assume "\<exists>q. r = principal q \<and> 0 \<le> area q"
    then obtain q where "r = principal q" "0 \<le> area q" by blast
    then show ?thesis using principal_order[of q] by (simp add: principal_keeps)
  qed
qed

text \<open>The right triangle (0,0), (4,0), (0,3).\<close>

theorem Calculate_area_nonneg_Imin_le_Imax_witness:
  "Calculate [0, 0, 4, 0, 0, 3] [0, 1, 2] = Some (moments [0, 0, 4, 0, 0, 3] [0, 1, 2]) \<and>
   0 \<le> area (moments [0, 0, 4, 0, 0, 3] [0, 1, 2]) \<and>
   Imin (moments [0, 0, 4, 0, 0, 3] [0, 1, 2]) \<le> Imax (moments [0, 0, 4, 0, 0, 3] [0, 1, 2])"
proof -
  have "mesh_ok [0, 0, 4, 0, 0, 3] [0, 1, 2]"
    by (simp add: mesh_ok_def index_ok_def)
  then have c: "Calculate [0, 0, 4, 0, 0, 3] [0, 1, 2] = Some (moments [0, 0, 4, 0, 0, 3] [0, 1, 2])"
    by (rule Calculate_moments)
  show ?thesis
    using c Calculate_area_nonneg_Imin_le_Imax[OF c] by simp
qed

subsection \<open>ProjectTo2D\<close>

lemma vertex3_at_ok:
  assumes "index3_ok vs i"
  shows "vertex3_at vs i = Some (vert3 vs (nat i))"
proof -
  have "nat (i * 3) = 3 * nat i" "nat (i * 3 + 1) = 3 * nat i + 1" "nat (i * 3 + 2) = 3 * nat i + 2"
    using assms by (auto simp: index3_ok_def nat_add_distrib nat_mult_distrib)
  then show ?thesis
    using assms by (simp add: vertex3_at_def read_at_def vert3_def index3_ok_def)
qed

lemma project_loop_map:
  assumes "3 * n \<le> length vs"
  shows "i \<le> n \<Longrightarrow> project_loop vs origin xA yA n i acc =
     Some (acc @ concat (map (project_pair vs origin xA yA) [i..<n]))"
proof (induction "n - i" arbitrary: i acc)
  case 0
  then show ?case by (simp add: project_loop.simps)
next
  case (Suc d)
  then have lt: "i < n" by simp
  have "index3_ok vs (int i)" using lt assms by (simp add: index3_ok_def)
  then have v: "vertex3_at vs (int i) = Some (vert3 vs i)"
    using vertex3_at_ok[of vs "int i"] by simp
  have ih: "\<And>acc. project_loop vs origin xA yA n (Suc i) acc =
     Some (acc @ concat (map (project_pair vs origin xA yA) [Suc i..<n]))"
    using Suc(1)[of "Suc i"] Suc(2) lt by simp
  show ?case
    using lt v ih
    by (subst project_loop.simps) (simp add: upt_conv_Cons project_pair_def Let_def)
qed

lemma length_concat_pairs: "length (concat (map (project_pair vs origin xA yA) ks)) = 2 * length ks"
  by (induction ks) (simp_all add: project_pair_def)

lemma nth_concat_pairs:
  "k < length ks \<Longrightarrow>
   concat (map (project_pair vs origin xA yA) ks) ! (2 * k) = project_pair vs origin xA yA (ks ! k) ! 0 \<and>
   concat (map (project_pair vs origin xA yA) ks) ! (2 * k + 1) = project_pair vs origin xA yA (ks ! k) ! 1"
proof (induction ks arbitrary: k)
  case Nil
  then show ?case by simp
next
  case (Cons a ks)
  show ?case
  proof (cases k)
    case 0
    then show ?thesis by (simp add: project_pair_def)
  next
    case (Suc j)
    then have "j < length ks" using Cons.prems by simp
    from Cons.IH[OF this] Suc show ?thesis by (simp add: project_pair_def)
  qed
qed


text \<open>
  Claim C7. \<open>ProjectTo2D\<close> takes zAxis = normalize(normal); xAxis = normalize(globalY
  \<times> zAxis) when |Dot zAxis globalY| < 0.9 and normalize(zAxis \<times> globalX) otherwise;
  yAxis = normalize(zAxis \<times> xAxis). It always returns a vector, of 2 * floor(|vertices3D| / 3)
  values; for each input vertex \<open>k\<close>, in the order of the input, the values at 2k and
  2k + 1 are the dot products of (vertex k - origin) with xAxis and with yAxis. The
  translation by -origin and the dot products are written out coordinate by coordinate,
  and so are the cross products, the dot product with globalY and the normalization of
  the normal.
\<close>

theorem ProjectTo2D_pairs:
  fixes vertices3D :: "real list" and normal origin :: Vector3D
  defines "zAxis \<equiv> Normalize normal"
  defines "xAxis \<equiv> (if \<bar>Dot zAxis (Vec 0 1 0)\<bar> < 0.9 then Normalize (Cross (Vec 0 1 0) zAxis)
                     else Normalize (Cross zAxis (Vec 1 0 0)))"
  defines "yAxis \<equiv> Normalize (Cross zAxis xAxis)"
  shows "\<exists>vertices2D. ProjectTo2D vertices3D normal origin = Some vertices2D \<and>
     length vertices2D = 2 * (length vertices3D div 3) \<and>
     (\<forall>k < length vertices3D div 3.
        vertices2D ! (2 * k) =
          (vertices3D ! (3 * k) - vx origin) * vx xAxis
          + (vertices3D ! (3 * k + 1) - vy origin) * vy xAxis
          + (vertices3D ! (3 * k + 2) - vz origin) * vz xAxis \<and>
        vertices2D ! (2 * k + 1) =
          (vertices3D ! (3 * k) - vx origin) * vx yAxis
          + (vertices3D ! (3 * k + 1) - vy origin) * vy yAxis
          + (vertices3D ! (3 * k + 2) - vz origin) * vz yAxis) \<and>
     Dot zAxis (Vec 0 1 0) = vy zAxis \<and>
     Cross (Vec 0 1 0) zAxis = \<lparr>vx = vz zAxis, vy = 0, vz = - vx zAxis\<rparr> \<and>
     Cross zAxis (Vec 1 0 0) = \<lparr>vx = 0, vy = vz zAxis, vz = - vy zAxis\<rparr> \<and>
     Cross zAxis xAxis =
       \<lparr>vx = vy zAxis * vz xAxis - vz zAxis * vy xAxis,
        vy = vz zAxis * vx xAxis - vx zAxis * vz xAxis,
        vz = vx zAxis * vy xAxis - vy zAxis * vx xAxis\<rparr> \<and>
     zAxis =
       (if sqrt (vx normal * vx normal + vy normal * vy normal + vz normal * vz normal) > 1 / 10 ^ 10
        then \<lparr>vx = vx normal / sqrt (vx normal * vx normal + vy normal * vy normal + vz normal * vz normal),
              vy = vy normal / sqrt (vx normal * vx normal + vy normal * vy normal + vz normal * vz normal),
              vz = vz normal / sqrt (vx normal * vx normal + vy normal * vy normal + vz normal * vz normal)\<rparr>
        else \<lparr>vx = 0, vy = 0, vz = 0\<rparr>)"
proof -
  let ?n = "length vertices3D div 3"
  let ?out = "concat (map (project_pair vertices3D origin xAxis yAxis) [0..<?n])"
  have le: "3 * ?n \<le> length vertices3D" by simp
  have e: "ProjectTo2D vertices3D normal origin =
      (if vertices3D = [] then Some [] else project_loop vertices3D origin xAxis yAxis ?n 0 [])"
    unfolding ProjectTo2D_def Let_def xAxis_def yAxis_def zAxis_def by (rule refl)
  have "ProjectTo2D vertices3D normal origin = Some ?out"
  proof (cases "vertices3D = []")
    case True
    show ?thesis unfolding e using True by simp
  next
    case False
    then show ?thesis
      unfolding e using project_loop_map[OF le, of 0 origin xAxis yAxis "[]"] by simp
  qed
  moreover have "length ?out = 2 * ?n" by (simp add: length_concat_pairs)
  moreover have "\<forall>k < ?n.
        ?out ! (2 * k) =
          (vertices3D ! (3 * k) - vx origin) * vx xAxis
          + (vertices3D ! (3 * k + 1) - vy origin) * vy xAxis
          + (vertices3D ! (3 * k + 2) - vz origin) * vz xAxis \<and>
        ?out ! (2 * k + 1) =
          (vertices3D ! (3 * k) - vx origin) * vx yAxis
          + (vertices3D ! (3 * k + 1) - vy origin) * vy yAxis
          + (vertices3D ! (3 * k + 2) - vz origin) * vz yAxis"
    using nth_concat_pairs[of _ "[0..<?n]" vertices3D origin xAxis yAxis]
    by (simp add: project_pair_def Dot_def vminus_def vert3_def Vec_def)
  moreover have "Dot zAxis (Vec 0 1 0) = vy zAxis"
    "Cross (Vec 0 1 0) zAxis = \<lparr>vx = vz zAxis, vy = 0, vz = - vx zAxis\<rparr>"
    "Cross zAxis (Vec 1 0 0) = \<lparr>vx = 0, vy = vz zAxis, vz = - vy zAxis\<rparr>"
    "Cross zAxis xAxis =
       \<lparr>vx = vy zAxis * vz xAxis - vz zAxis * vy xAxis,
        vy = vz zAxis * vx xAxis - vx zAxis * vz xAxis,
        vz = vx zAxis * vy xAxis - vy zAxis * vx xAxis\<rparr>"
    by (simp_all add: Dot_def Cross_def Vec_def)
  moreover have "zAxis =
       (if sqrt (vx normal * vx normal + vy normal * vy normal + vz normal * vz normal) > 1 / 10 ^ 10
        then \<lparr>vx = vx normal / sqrt (vx normal * vx normal + vy normal * vy normal + vz normal * vz normal),
              vy = vy normal / sqrt (vx normal * vx normal + vy normal * vy normal + vz normal * vz normal),
              vz = vz normal / sqrt (vx normal * vx normal + vy normal * vy normal + vz normal * vz normal)\<rparr>
        else \<lparr>vx = 0, vy = 0, vz = 0\<rparr>)"
    unfolding zAxis_def Normalize_def Length_def Let_def Vec_def by (rule refl)
  ultimately show ?thesis by blast
qed


text \<open>
  Four vertices and a thirteenth, unused, value, the normal (0,3,4) and the origin
  (1,2,3): the basis is (1,0,0), (0,4/5,-3/5). And one vertex with the normal (0,2,0),
  which is parallel to globalY: the basis is (0,0,-1), (-1,0,0).
\<close>

theorem ProjectTo2D_pairs_witness:
  "(\<exists>v. ProjectTo2D [1, 2, 3, 2, 2, 3, 1, 7, 3, 1, 2, 8, 7] (Vec 0 3 4) (Vec 1 2 3) = Some v \<and>
      length v = 8 \<and> v ! 0 = 0 \<and> v ! 1 = 0 \<and> v ! 2 = 1 \<and> v ! 3 = 0 \<and>
      v ! 4 = 0 \<and> v ! 5 = 4 \<and> v ! 6 = 0 \<and> v ! 7 = - 3) \<and>
   (\<exists>v. ProjectTo2D [4, 6, 8] (Vec 0 2 0) (Vec 1 2 3) = Some v \<and>
      length v = 2 \<and> v ! 0 = - 5 \<and> v ! 1 = - 3)"
proof -
  have s25: "sqrt 25 = 5" using real_sqrt_abs[of 5] by simp
  have s16: "sqrt 16 = 4" using real_sqrt_abs[of 4] by simp
  have s4: "sqrt 4 = 2" using real_sqrt_abs[of 2] by simp
  have z1: "Normalize (Vec 0 3 4) = Vec 0 (3 / 5) (4 / 5)"
    by (simp add: Normalize_def Length_def Let_def Vec_def s25)
  have d1: "\<bar>Dot (Vec 0 (3 / 5) (4 / 5)) (Vec 0 1 0)\<bar> < 0.9" by (simp add: Dot_def Vec_def)
  have x1: "Normalize (Cross (Vec 0 1 0) (Vec 0 (3 / 5) (4 / 5))) = Vec 1 0 0"
    by (simp add: Normalize_def Length_def Let_def Vec_def Cross_def real_sqrt_divide s16 s25)
  have y1: "Normalize (Cross (Vec 0 (3 / 5) (4 / 5)) (Vec 1 0 0)) = Vec 0 (4 / 5) (- 3 / 5)"
    by (simp add: Normalize_def Length_def Let_def Vec_def Cross_def)
  obtain v where v: "ProjectTo2D [1, 2, 3, 2, 2, 3, 1, 7, 3, 1, 2, 8, 7] (Vec 0 3 4) (Vec 1 2 3) = Some v"
    "length v = 8"
    "\<forall>k < 4.
        v ! (2 * k) =
          ([1, 2, 3, 2, 2, 3, 1, 7, 3, 1, 2, 8, 7] ! (3 * k) - 1) * 1
          + ([1, 2, 3, 2, 2, 3, 1, 7, 3, 1, 2, 8, 7] ! (3 * k + 1) - 2) * 0
          + ([1, 2, 3, 2, 2, 3, 1, 7, 3, 1, 2, 8, 7] ! (3 * k + 2) - 3) * 0 \<and>
        v ! (2 * k + 1) =
          ([1, 2, 3, 2, 2, 3, 1, 7, 3, 1, 2, 8, 7] ! (3 * k) - 1) * 0
          + ([1, 2, 3, 2, 2, 3, 1, 7, 3, 1, 2, 8, 7] ! (3 * k + 1) - 2) * (4 / 5)
          + ([1, 2, 3, 2, 2, 3, 1, 7, 3, 1, 2, 8, 7] ! (3 * k + 2) - 3) * (- 3 / 5)"
    using ProjectTo2D_pairs[of "[1, 2, 3, 2, 2, 3, 1, 7, 3, 1, 2, 8, 7]" "Vec 0 3 4" "Vec 1 2 3"]
    unfolding z1 if_P[OF d1] x1 y1 by (auto simp: Vec_def)
  have a: "v ! 0 = 0 \<and> v ! 1 = 0" "v ! 2 = 1 \<and> v ! 3 = 0" "v ! 4 = 0 \<and> v ! 5 = 4"
    "v ! 6 = 0 \<and> v ! 7 = - 3"
    using v(3)[rule_format, of 0] v(3)[rule_format, of 1] v(3)[rule_format, of 2]
      v(3)[rule_format, of 3]
    by simp_all
  have z2: "Normalize (Vec 0 2 0) = Vec 0 1 0"
    by (simp add: Normalize_def Length_def Let_def Vec_def s4)
  have d2: "\<not> \<bar>Dot (Vec 0 1 0) (Vec 0 1 0)\<bar> < 0.9" by (simp add: Dot_def Vec_def)
  have x2: "Normalize (Cross (Vec 0 1 0) (Vec 1 0 0)) = Vec 0 0 (- 1)"
    by (simp add: Normalize_def Length_def Let_def Vec_def Cross_def)
  have y2: "Normalize (Cross (Vec 0 1 0) (Vec 0 0 (- 1))) = Vec (- 1) 0 0"
    by (simp add: Normalize_def Length_def Let_def Vec_def Cross_def)
  obtain w where w: "ProjectTo2D [4, 6, 8] (Vec 0 2 0) (Vec 1 2 3) = Some w"
    "length w = 2"
    "\<forall>k < 1.
        w ! (2 * k) = ([4, 6, 8] ! (3 * k) - 1) * 0 + ([4, 6, 8] ! (3 * k + 1) - 2) * 0
          + ([4, 6, 8] ! (3 * k + 2) - 3) * (- 1) \<and>
        w ! (2 * k + 1) = ([4, 6, 8] ! (3 * k) - 1) * (- 1) + ([4, 6, 8] ! (3 * k + 1) - 2) * 0
          + ([4, 6, 8] ! (3 * k + 2) - 3) * 0"
    using ProjectTo2D_pairs[of "[4, 6, 8]" "Vec 0 2 0" "Vec 1 2 3"]
    unfolding z2 if_not_P[OF d2] x2 y2 by (auto simp: Vec_def)
  have b: "w ! 0 = - 5 \<and> w ! 1 = - 3"
    using w(3)[rule_format, of 0] by simp
  show ?thesis using v(1,2) a w(1,2) b by blast
qed

subsection \<open>CalculateNormal\<close>




subsection \<open>Reversing the winding\<close>

lemma length_reverse_winding: "length (reverse_winding w ix) = length ix"
  by (induction w ix rule: reverse_winding.induct) (auto split: swap.splits)

lemma div3_Cons3: "length (a # b # c # rest) div 3 = Suc (length rest div 3)"
  by simp

lemma mesh_ok_Cons3:
  "mesh_ok vs (a # b # c # rest) \<longleftrightarrow>
     index_ok vs a \<and> index_ok vs b \<and> index_ok vs c \<and> mesh_ok vs rest"
proof -
  have "3 * Suc (length rest div 3) = Suc (Suc (Suc (3 * (length rest div 3))))" by simp
  then show ?thesis unfolding mesh_ok_def div3_Cons3 by (simp del: mult_Suc_right)
qed

lemma mesh_ok_short: "length ix < 3 \<Longrightarrow> mesh_ok vs ix"
  by (simp add: mesh_ok_def)

lemma mesh_ok_reverse_winding: "mesh_ok vs (reverse_winding w ix) = mesh_ok vs ix"
proof (induction w ix rule: reverse_winding.induct)
  case (1 w a b c rest)
  then show ?case by (cases w) (auto simp: mesh_ok_Cons3)
qed simp_all

lemma tri_Cons3_0: "tri vs (a # b # c # rest) 0 =
  (vs ! nat (a * 2), vs ! nat (a * 2 + 1), vs ! nat (b * 2), vs ! nat (b * 2 + 1),
   vs ! nat (c * 2), vs ! nat (c * 2 + 1))"
  by (simp add: tri_def)

lemma tri_Cons3_Suc: "tri vs (a # b # c # rest) (Suc t) = tri vs rest t"
  by (simp add: tri_def)

lemma tri_reverse_winding:
  "t < length ix div 3 \<Longrightarrow> tri vs (reverse_winding w ix) t = swap_tri w (tri vs ix t)"
proof (induction w ix arbitrary: t rule: reverse_winding.induct)
  case (1 w a b c rest)
  show ?case
  proof (cases t)
    case 0
    then show ?thesis by (cases w) (simp_all add: tri_Cons3_0)
  next
    case (Suc j)
    then have "j < length rest div 3" using "1.prems" by simp
    from "1.IH"[OF this] Suc show ?thesis by (cases w) (simp_all add: tri_Cons3_Suc)
  qed
qed simp_all

lemma swap_tri_area: "tri_area (swap_tri w T) = - tri_area T"
  by (cases T; cases w) (simp_all add: tri_area_def SignedTriangleArea_def algebra_simps)

lemma swap_tri_mx: "tri_mx (swap_tri w T) = - tri_mx T"
  by (cases T; cases w)
    (simp_all add: tri_mx_def SignedTriangleArea_def TriangleCentroid_def algebra_simps)

lemma swap_tri_my: "tri_my (swap_tri w T) = - tri_my T"
  by (cases T; cases w)
    (simp_all add: tri_my_def SignedTriangleArea_def TriangleCentroid_def algebra_simps)

lemma tri_sum_reverse_winding:
  assumes "\<And>T. f (swap_tri w T) = - f T"
  shows "tri_sum f vs (reverse_winding w ix) = - tri_sum f vs ix"
  by (simp add: tri_sum_def length_reverse_winding tri_reverse_winding assms sum_negf)

lemma moments_fields:
  assumes "1 / 10 ^ 15 \<le> \<bar>tri_sum tri_area vs ix\<bar>"
  shows "area (moments vs ix) = \<bar>tri_sum tri_area vs ix\<bar>"
    "Cx (moments vs ix) = tri_sum tri_mx vs ix / tri_sum tri_area vs ix"
    "Cy (moments vs ix) = tri_sum tri_my vs ix / tri_sum tri_area vs ix"
  using assms by (simp_all add: moments_def Let_def principal_keeps)


text \<open>
  Claim C5. On a well-formed 2D mesh whose signed triangle areas sum to a magnitude of at
  least 1e-15, exchanging two indices in every triple negates the total signed area and
  leaves the fields area, Cx and Cy of the result of \<open>Calculate\<close> as they were: area is
  the magnitude of the total signed area, and the centroid is the quotient of the
  weighted sums by the total signed area, where the sign cancels.
\<close>

theorem winding_reversal_keeps_area_and_centroid:
  assumes "mesh_ok vs ix" and "1 / 10 ^ 15 \<le> \<bar>tri_sum tri_area vs ix\<bar>"
  shows "\<exists>r r'. Calculate vs ix = Some r \<and> Calculate vs (reverse_winding w ix) = Some r' \<and>
     tri_sum tri_area vs (reverse_winding w ix) = - tri_sum tri_area vs ix \<and>
     area r = \<bar>tri_sum tri_area vs ix\<bar> \<and>
     Cx r = tri_sum tri_mx vs ix / tri_sum tri_area vs ix \<and>
     Cy r = tri_sum tri_my vs ix / tri_sum tri_area vs ix \<and>
     area r' = area r \<and> Cx r' = Cx r \<and> Cy r' = Cy r"
proof -
  let ?ix' = "reverse_winding w ix"
  have ok': "mesh_ok vs ?ix'" using assms(1) by (simp add: mesh_ok_reverse_winding)
  have a: "tri_sum tri_area vs ?ix' = - tri_sum tri_area vs ix"
    by (rule tri_sum_reverse_winding) (rule swap_tri_area)
  have mx: "tri_sum tri_mx vs ?ix' = - tri_sum tri_mx vs ix"
    by (rule tri_sum_reverse_winding) (rule swap_tri_mx)
  have my: "tri_sum tri_my vs ?ix' = - tri_sum tri_my vs ix"
    by (rule tri_sum_reverse_winding) (rule swap_tri_my)
  have big': "1 / 10 ^ 15 \<le> \<bar>tri_sum tri_area vs ?ix'\<bar>" using assms(2) a by simp
  have "area (moments vs ?ix') = area (moments vs ix)"
    "Cx (moments vs ?ix') = Cx (moments vs ix)" "Cy (moments vs ?ix') = Cy (moments vs ix)"
    unfolding moments_fields[OF assms(2)] moments_fields[OF big'] a mx my by simp_all
  then show ?thesis
    using Calculate_moments[OF assms(1)] Calculate_moments[OF ok'] a moments_fields[OF assms(2)]
    by simp
qed


text \<open>The right triangle (0,0), (4,0), (0,3), counter-clockwise and clockwise.\<close>

theorem winding_reversal_keeps_area_and_centroid_witness:
  "mesh_ok [0, 0, 4, 0, 0, 3] [0, 1, 2] \<and>
   1 / 10 ^ 15 \<le> \<bar>tri_sum tri_area [0, 0, 4, 0, 0, 3] [0, 1, 2]\<bar> \<and>
   reverse_winding Swap12 [0, 1, 2] = [0, 2, 1] \<and>
   (\<exists>r r'. Calculate [0, 0, 4, 0, 0, 3] [0, 1, 2] = Some r \<and>
      Calculate [0, 0, 4, 0, 0, 3] [0, 2, 1] = Some r' \<and>
      area r = 6 \<and> Cx r = 4 / 3 \<and> Cy r = 1 \<and> area r' = 6 \<and> Cx r' = 4 / 3 \<and> Cy r' = 1)"
proof -
  have ok: "mesh_ok [0, 0, 4, 0, 0, 3] [0, 1, 2]"
    by (simp add: mesh_ok_def index_ok_def)
  have s: "tri_sum tri_area [0, 0, 4, 0, 0, 3] [0, 1, 2] = 6"
    "tri_sum tri_mx [0, 0, 4, 0, 0, 3] [0, 1, 2] = 8"
    "tri_sum tri_my [0, 0, 4, 0, 0, 3] [0, 1, 2] = 6"
    by (simp_all add: tri_sum_1 tri_def tri_area_def tri_mx_def tri_my_def
        SignedTriangleArea_def TriangleCentroid_def)
  have big: "1 / 10 ^ 15 \<le> \<bar>tri_sum tri_area [0, 0, 4, 0, 0, 3] [0, 1, 2]\<bar>"
    by (simp add: s)
  show ?thesis
    using winding_reversal_keeps_area_and_centroid[OF ok big, of Swap12] ok big
    by (simp add: s) metis
qed

subsection \<open>ExtractFaceMesh and CalculateFace\<close>

lemma push_vertex_ok:
  assumes "offset + v * 3 + 2 < length pData"
  shows "push_vertex pData offset v (vs, ix, vi) =
    Some (vs @ [pData ! (offset + v * 3), pData ! (offset + v * 3 + 1), pData ! (offset + v * 3 + 2)],
          ix @ [vi], vi + 1)"
proof -
  have "nat (int v * 3) = v * 3" by (simp add: nat_mult_distrib)
  then show ?thesis
    using assms by (simp add: push_vertex_def read_at_def nat_add_distrib)
qed

lemma upt_9: "[9 * t..<9 * t + 9] =
  [9 * t, 9 * t + 1, 9 * t + 2, 9 * t + 3, 9 * t + 4, 9 * t + 5, 9 * t + 6, 9 * t + 7, 9 * t + 8]"
  by (simp add: upt_rec)

lemma upt_3: "[3 * t..<3 * t + 3] = [3 * t, 3 * t + 1, 3 * t + 2]"
  by (simp add: upt_rec)

lemma upt_split: "i \<le> j \<Longrightarrow> j \<le> k \<Longrightarrow> [i..<k] = [i..<j] @ [j..<k]"
  by (metis le_Suc_ex upt_add_eq_append)

lemma facet_loop_map:
  assumes "9 * n \<le> length pData"
  shows "t \<le> n \<Longrightarrow> facet_loop pData n t (vs, ix, int (3 * t)) =
    Some (vs @ map ((!) pData) [9 * t..<9 * n], ix @ map int [3 * t..<3 * n], int (3 * n))"
proof (induction "n - t" arbitrary: t vs ix)
  case 0
  then show ?case by (simp add: facet_loop.simps)
next
  case (Suc d)
  then have lt: "t < n" by simp
  then have b: "t * 9 + 8 < length pData" using assms by simp
  have p0: "push_vertex pData (t * 9) 0 (vs, ix, int (3 * t)) =
    Some (vs @ [pData ! (9 * t), pData ! (9 * t + 1), pData ! (9 * t + 2)],
          ix @ [int (3 * t)], int (3 * t + 1))"
    using push_vertex_ok[of "t * 9" 0 pData vs ix "int (3 * t)"] b
    by (simp add: mult.commute)
  have p1: "\<And>vs ix. push_vertex pData (t * 9) 1 (vs, ix, int (3 * t + 1)) =
    Some (vs @ [pData ! (9 * t + 3), pData ! (9 * t + 4), pData ! (9 * t + 5)],
          ix @ [int (3 * t + 1)], int (3 * t + 2))"
    using push_vertex_ok[of "t * 9" 1 pData _ _ "int (3 * t + 1)"] b
    by (simp add: mult.commute add.commute)
  have p2: "\<And>vs ix. push_vertex pData (t * 9) 2 (vs, ix, int (3 * t + 2)) =
    Some (vs @ [pData ! (9 * t + 6), pData ! (9 * t + 7), pData ! (9 * t + 8)],
          ix @ [int (3 * t + 2)], int (3 * Suc t))"
    using push_vertex_ok[of "t * 9" 2 pData _ _ "int (3 * t + 2)"] b
    by (simp add: mult.commute add.commute)
  have ih: "\<And>vs ix. facet_loop pData n (t + 1) (vs, ix, int (3 * Suc t)) =
    Some (vs @ map ((!) pData) [9 * Suc t..<9 * n], ix @ map int [3 * Suc t..<3 * n], int (3 * n))"
    using Suc(1)[of "Suc t"] Suc(2) lt by simp
  have u9: "[9 * t..<9 * n] = [9 * t..<9 * t + 9] @ [9 * Suc t..<9 * n]"
    using upt_split[of "9 * t" "9 * t + 9" "9 * n"] lt by (simp add: add.commute)
  have u3: "[3 * t..<3 * n] = [3 * t..<3 * t + 3] @ [3 * Suc t..<3 * n]"
    using upt_split[of "3 * t" "3 * t + 3" "3 * n"] lt by (simp add: add.commute)
  have "facet_loop pData n t (vs, ix, int (3 * t)) =
    Some ((((vs @ [pData ! (9 * t), pData ! (9 * t + 1), pData ! (9 * t + 2)])
              @ [pData ! (9 * t + 3), pData ! (9 * t + 4), pData ! (9 * t + 5)])
              @ [pData ! (9 * t + 6), pData ! (9 * t + 7), pData ! (9 * t + 8)])
            @ map ((!) pData) [9 * Suc t..<9 * n],
          (((ix @ [int (3 * t)]) @ [int (3 * t + 1)]) @ [int (3 * t + 2)])
            @ map int [3 * Suc t..<3 * n],
          int (3 * n))"
    by (subst facet_loop.simps) (simp only: lt if_True Let_def p0 option.case p1 p2 ih)
  also have "\<dots> = Some (vs @ map ((!) pData) [9 * t..<9 * n], ix @ map int [3 * t..<3 * n],
      int (3 * n))"
    unfolding u9 u3 upt_9 upt_3 by simp
  finally show ?case .
qed

lemma ProjectTo2D_concat:
  "ProjectTo2D vs normal origin =
     Some (concat (map (project_pair vs origin (fst (basis_of normal)) (snd (basis_of normal)))
       [0..<length vs div 3]))"
proof (cases "vs = []")
  case True
  then show ?thesis by (simp add: ProjectTo2D_def)
next
  case False
  have le: "3 * (length vs div 3) \<le> length vs" by simp
  have "ProjectTo2D vs normal origin =
    project_loop vs origin (fst (basis_of normal)) (snd (basis_of normal)) (length vs div 3) 0 []"
    using False by (simp add: ProjectTo2D_def basis_of_def Let_def)
  then show ?thesis
    using project_loop_map[OF le, of 0 origin _ _ "[]"] by simp
qed

lemma ProjectTo2D_length:
  "\<exists>v. ProjectTo2D vs normal origin = Some v \<and> length v = 2 * (length vs div 3)"
  by (simp add: ProjectTo2D_concat length_concat_pairs)

lemma ExtractFaceMesh_perimeter:
  "ExtractFaceMesh (Some face) v0 i0 p0 = Some (ok, v, ix, p) \<Longrightarrow> p = 0"
  by (auto simp: ExtractFaceMesh_def Let_def split: option.splits if_splits prod.splits Option.bind_splits)

lemma ExtractFaceMesh_fail:
  assumes "FacetData face 0.001 = None \<or> (\<exists>pData. FacetData face 0.001 = Some pData \<and> length pData < 10)"
  shows "ExtractFaceMesh (Some face) v0 i0 p0 = Some (False, v0, i0, 0)"
  using assms by (auto simp: ExtractFaceMesh_def Let_def)

lemma ExtractFaceMesh_ok:
  assumes "FacetData face 0.001 = Some pData" "10 \<le> length pData"
  shows "\<exists>v. ExtractFaceMesh (Some face) v0 [] p0 =
      Some (True, v, map int [0..<3 * (length pData div 9)], 0) \<and>
    length v = 6 * (length pData div 9)"
proof -
  let ?n = "length pData div 9"
  let ?V = "map ((!) pData) [0..<9 * ?n]"
  let ?ix = "map int [0..<3 * ?n]"
  have n: "0 < ?n" using assms(2) by simp
  have le: "9 * ?n \<le> length pData" by simp
  have f: "facet_loop pData ?n 0 ([], [], 0) = Some (?V, ?ix, int (3 * ?n))"
    using facet_loop_map[OF le, of 0 "[]" "[]"] by simp
  have lV: "length ?V = 9 * ?n" by simp
  have lix: "length ?ix = 3 * ?n" by simp
  have "\<not> (length ?ix < 3 \<or> length ?V < 9)" using n by simp
  moreover have "read_at ?ix 0 = Some 0" "read_at ?ix 1 = Some 1" "read_at ?ix 2 = Some 2"
    using n by (simp_all add: read_at_def)
  moreover have "index3_ok ?V 0" "index3_ok ?V 1" "index3_ok ?V 2"
    using n by (simp_all add: index3_ok_def)
  ultimately have cn: "\<exists>nrm. CalculateNormal ?V ?ix = Some nrm"
    unfolding CalculateNormal_def by (simp add: vertex3_at_ok Let_def)
  then obtain nrm where nrm: "CalculateNormal ?V ?ix = Some nrm" by blast
  have o: "vertex3_at ?V 0 = Some (vert3 ?V 0)"
    using vertex3_at_ok[of ?V 0] n by (simp add: index3_ok_def)
  obtain v where v: "ProjectTo2D ?V nrm (vert3 ?V 0) = Some v" "length v = 2 * (length ?V div 3)"
    using ProjectTo2D_length by blast
  have lv: "length v = 6 * ?n" using v(2) by simp
  then have ne: "v \<noteq> []" using n by auto
  have "ExtractFaceMesh (Some face) v0 [] p0 = Some (True, v, ?ix, 0)"
    unfolding ExtractFaceMesh_def Let_def using assms n f nrm o v(1) ne by simp
  then show ?thesis using lv by blast
qed

lemma mesh_ok_soup: "length v = 6 * n \<Longrightarrow> mesh_ok v (map int [0..<3 * n])"
  by (auto simp: mesh_ok_def index_ok_def list_all_iff)

lemma fiber_loop_total:
  assumes "even (length v)"
  shows "even i \<Longrightarrow> \<exists>m. fiber_loop v cx cy i (a, b) = Some m"
proof (induction "length v - i" arbitrary: i a b rule: less_induct)
  case less
  show ?case
  proof (cases "i < length v")
    case False
    then show ?thesis by (simp add: fiber_loop.simps)
  next
    case True
    then have "Suc i < length v" using assms less.prems by (metis Suc_lessI even_Suc)
    then have r: "read_at v (int i) = Some (v ! i)" "read_at v (int i + 1) = Some (v ! Suc i)"
      by (simp_all add: read_at_def nat_add_distrib)
    have "length v - (i + 2) < length v - i" using True by simp
    moreover have "even (i + 2)" using less.prems by simp
    ultimately have "\<And>a b. \<exists>m. fiber_loop v cx cy (i + 2) (a, b) = Some m"
      using less.hyps by blast
    then show ?thesis
      using True r by (subst fiber_loop.simps) (simp add: Let_def)
  qed
qed

lemma CalculateFace_unfold:
  assumes "pFace item = Some face"
    and "ExtractFaceMesh (Some face) [] [] 0 = Some (True, v, ix, p)"
    and "Calculate v ix = Some b"
    and "fiber_loop v (Cx b) (Cy b) 0 (0, 0) = Some (cxm, cym)"
  shows "CalculateFace item =
    Some (True, item\<lparr>result := face_result (result item) b p cxm cym (GetFaceTypeName (pFace item)),
                       hasResult := True\<rparr>)"
proof -
  have d: "\<And>a c. c > 1 / 10 ^ 10 \<Longrightarrow> c_div a c = Some (a / c)"
    by (auto simp: c_div_def)
  show ?thesis
    unfolding CalculateFace_def Let_def face_result_def
    using assms by (cases "area b > 1 / 10 ^ 10"; cases "cym > 1 / 10 ^ 10"; cases "cxm > 1 / 10 ^ 10")
      (simp_all add: d)
qed

lemma CalculateFace_succeeds:
  assumes "pFace item = Some face" "FacetData face 0.001 = Some pData" "10 \<le> length pData"
  shows "\<exists>v b cxm cym.
      ExtractFaceMesh (Some face) [] [] 0 =
        Some (True, v, map int [0..<3 * (length pData div 9)], 0) \<and>
      length v = 6 * (length pData div 9) \<and>
      b = moments v (map int [0..<3 * (length pData div 9)]) \<and>
      Calculate v (map int [0..<3 * (length pData div 9)]) = Some b \<and>
      fiber_loop v (Cx b) (Cy b) 0 (0, 0) = Some (cxm, cym) \<and>
      CalculateFace item =
        Some (True, item\<lparr>result := face_result (result item) b 0 cxm cym
                                       (GetFaceTypeName (pFace item)),
                           hasResult := True\<rparr>)"
proof -
  let ?ix = "map int [0..<3 * (length pData div 9)]"
  obtain v where v: "ExtractFaceMesh (Some face) [] [] 0 = Some (True, v, ?ix, 0)"
    "length v = 6 * (length pData div 9)"
    using ExtractFaceMesh_ok[OF assms(2,3), of "[]" 0] by blast
  have c: "Calculate v ?ix = Some (moments v ?ix)"
    using Calculate_moments[OF mesh_ok_soup[OF v(2)]] .
  have "even (length v)" using v(2) by simp
  then obtain m where m: "fiber_loop v (Cx (moments v ?ix)) (Cy (moments v ?ix)) 0 (0, 0) = Some m"
    using fiber_loop_total[of v 0 "Cx (moments v ?ix)" "Cy (moments v ?ix)" 0 0] by auto
  have fl: "fiber_loop v (Cx (moments v ?ix)) (Cy (moments v ?ix)) 0 (0, 0) = Some (fst m, snd m)"
    using m by simp
  show ?thesis
    using v c fl CalculateFace_unfold[OF assms(1) v(1) c fl] by blast
qed

lemma CalculateFace_cases:
  "CalculateFace item = Some (False, item) \<or>
   (\<exists>b cxm cym. CalculateFace item =
        Some (True, item\<lparr>result := face_result (result item) b 0 cxm cym
                                       (GetFaceTypeName (pFace item)),
                           hasResult := True\<rparr>))"
proof (cases "pFace item")
  case None
  then show ?thesis by (simp add: CalculateFace_def)
next
  case (Some face)
  show ?thesis
  proof (cases "FacetData face 0.001 = None \<or>
      (\<exists>pData. FacetData face 0.001 = Some pData \<and> length pData < 10)")
    case True
    then have "CalculateFace item = Some (False, item)"
      using Some ExtractFaceMesh_fail[OF True, of "[]" "[]" 0] by (simp add: CalculateFace_def)
    then show ?thesis by blast
  next
    case False
    then obtain pData where pd: "FacetData face 0.001 = Some pData" "10 \<le> length pData"
      by (cases "FacetData face 0.001") auto
    show ?thesis using CalculateFace_succeeds[OF Some pd] by blast
  qed
qed

lemma CalculateFace_True:
  assumes "CalculateFace item = Some (True, item')"
  shows "\<exists>b cxm cym. item' = item\<lparr>result := face_result (result item) b 0 cxm cym
                                       (GetFaceTypeName (pFace item)),
                           hasResult := True\<rparr>"
  using CalculateFace_cases[of item] assms by auto

lemma mixed_face_mesh:
  "ExtractFaceMesh (Some mixed_face) [] [] 0 =
     Some (True, [0, 0, 1, 0, 0, 1, 0, 0, 0, 2, 2, 0], [0, 1, 2, 3, 4, 5], 0)"
proof -
  have f: "facet_loop [0, 0, 0, 1, 0, 0, 0, 1, 0, 0, 0, 0, 0, 2, 0, 2, 0, 0] 2 0 ([], [], 0) =
    Some ([0, 0, 0, 1, 0, 0, 0, 1, 0, 0, 0, 0, 0, 2, 0, 2, 0, 0], [0, 1, 2, 3, 4, 5], 6)"
    by (simp add: facet_loop.simps push_vertex_def read_at_def)
  have n: "CalculateNormal [0, 0, 0, 1, 0, 0, 0, 1, 0, 0, 0, 0, 0, 2, 0, 2, 0, 0] [0, 1, 2, 3, 4, 5] =
    Some (Vec 0 0 1)"
    by (simp add: CalculateNormal_def read_at_def vertex3_at_def vminus_def Vec_def Cross_def
        Normalize_def Length_def Let_def)
  have o: "vertex3_at [0, 0, 0, 1, 0, 0, 0, 1, 0, 0, 0, 0, 0, 2, 0, 2, 0, 0] 0 = Some (Vec 0 0 0)"
    by (simp add: vertex3_at_def read_at_def)
  have b: "basis_of (Vec 0 0 1) = (Vec 1 0 0, Vec 0 1 0)"
    by (simp add: basis_of_def Vec_def Cross_def Dot_def Normalize_def Length_def Let_def)
  have p: "ProjectTo2D [0, 0, 0, 1, 0, 0, 0, 1, 0, 0, 0, 0, 0, 2, 0, 2, 0, 0] (Vec 0 0 1) (Vec 0 0 0) =
    Some [0, 0, 1, 0, 0, 1, 0, 0, 0, 2, 2, 0]"
    unfolding ProjectTo2D_concat b
    by (simp add: upt_rec project_pair_def vert3_def vminus_def Dot_def Vec_def)
  show ?thesis
    unfolding ExtractFaceMesh_def Let_def mixed_face_def
    by (simp add: f n o p)
qed

text \<open>
  Claim C10. The perimeter handed back by \<open>ExtractFaceMesh\<close> for a face is 0 on every
  return, and the \<open>perimeter\<close> field of every result record that \<open>CalculateFace\<close> produces
  is 0: the field is declared and copied, and nothing computes it.
\<close>

theorem perimeter_never_set:
  "(ExtractFaceMesh (Some face) v0 i0 p0 = Some (ok, v, ix, p) \<longrightarrow> p = 0) \<and>
   (CalculateFace item = Some (True, item') \<longrightarrow> perimeter (result item') = 0)"
proof (intro conjI impI)
  assume "ExtractFaceMesh (Some face) v0 i0 p0 = Some (ok, v, ix, p)"
  then show "p = 0" by (rule ExtractFaceMesh_perimeter)
next
  assume "CalculateFace item = Some (True, item')"
  then show "perimeter (result item') = 0"
    using CalculateFace_True[of item item'] by (auto simp: face_result_def)
qed


text \<open>The face with two triangles of opposite winding.\<close>

theorem perimeter_never_set_witness:
  "\<exists>item'. CalculateFace mixed_item = Some (True, item') \<and> perimeter (result item') = 0"
proof -
  have pf: "pFace mixed_item = Some mixed_face" by (simp add: mixed_item_def)
  have fd: "FacetData mixed_face 0.001 =
      Some [0, 0, 0, 1, 0, 0, 0, 1, 0, 0, 0, 0, 0, 2, 0, 2, 0, 0]"
    by (simp add: mixed_face_def)
  have len: "10 \<le> length [0, 0, 0, 1, 0, 0, 0, 1, 0, 0, 0, 0, 0, 2, 0, 2, 0, 0 :: real]" by simp
  have "\<exists>item'. CalculateFace mixed_item = Some (True, item')"
    using CalculateFace_succeeds[OF pf fd len] by blast
  then obtain item' where i: "CalculateFace mixed_item = Some (True, item')" by blast
  then show ?thesis using perimeter_never_set[of _ _ _ _ _ _ _ _ mixed_item item'] by blast
qed


text \<open>
  Claim C9, as the code has it. \<open>CalculateFace\<close> always runs to its end: it reads no
  vector out of range. When it produces a result in an item whose record was fresh: Rx
  and Ry are the roots of Ix/area and Iy/area when area > 1e-10 and stay zero otherwise;
  Sx_min and Sy_min are Ix/cy_max and Iy/cx_max when the extreme fiber distance exceeds
  1e-10 and stay zero otherwise; so no quotient has a denominator at or below the
  threshold, and Sx_min and Sy_min are always real numbers. Rx is not a real number
  exactly when area > 1e-10 and Ix < 0, and Ry exactly when area > 1e-10 and Iy < 0: the
  root is taken without a look at the sign.
\<close>

theorem section_property_guards:
  "(\<exists>ok item'. CalculateFace item = Some (ok, item')) \<and>
   (result item = ImGuiAreaMomentsResult_init \<and> CalculateFace item = Some (True, item') \<longrightarrow>
      (let r = result item' in
       Rx r = (if area_f r > 1 / 10 ^ 10 then c_sqrt (Ix_centroid r / area_f r) else Some 0) \<and>
       Ry r = (if area_f r > 1 / 10 ^ 10 then c_sqrt (Iy_centroid r / area_f r) else Some 0) \<and>
       Sx_min r = (if cy_max r > 1 / 10 ^ 10 then Some (Ix_centroid r / cy_max r) else Some 0) \<and>
       Sy_min r = (if cx_max r > 1 / 10 ^ 10 then Some (Iy_centroid r / cx_max r) else Some 0) \<and>
       Sx_min r \<noteq> None \<and> Sy_min r \<noteq> None \<and>
       (Rx r = None \<longleftrightarrow> area_f r > 1 / 10 ^ 10 \<and> Ix_centroid r < 0) \<and>
       (Ry r = None \<longleftrightarrow> area_f r > 1 / 10 ^ 10 \<and> Iy_centroid r < 0)))"
proof (intro conjI impI)
  show "\<exists>ok item'. CalculateFace item = Some (ok, item')"
    using CalculateFace_cases[of item] by blast
next
  assume a: "result item = ImGuiAreaMomentsResult_init \<and> CalculateFace item = Some (True, item')"
  then obtain b cxm cym where
    i: "item' = item\<lparr>result := face_result ImGuiAreaMomentsResult_init b 0 cxm cym
                                       (GetFaceTypeName (pFace item)),
                           hasResult := True\<rparr>"
    using CalculateFace_True[of item item'] by auto
  have q: "\<And>u w :: real. w > 1 / 10 ^ 10 \<Longrightarrow> (u / w < 0) = (u < 0)"
    by (simp add: divide_less_0_iff)
  show "let r = result item' in
       Rx r = (if area_f r > 1 / 10 ^ 10 then c_sqrt (Ix_centroid r / area_f r) else Some 0) \<and>
       Ry r = (if area_f r > 1 / 10 ^ 10 then c_sqrt (Iy_centroid r / area_f r) else Some 0) \<and>
       Sx_min r = (if cy_max r > 1 / 10 ^ 10 then Some (Ix_centroid r / cy_max r) else Some 0) \<and>
       Sy_min r = (if cx_max r > 1 / 10 ^ 10 then Some (Iy_centroid r / cx_max r) else Some 0) \<and>
       Sx_min r \<noteq> None \<and> Sy_min r \<noteq> None \<and>
       (Rx r = None \<longleftrightarrow> area_f r > 1 / 10 ^ 10 \<and> Ix_centroid r < 0) \<and>
       (Ry r = None \<longleftrightarrow> area_f r > 1 / 10 ^ 10 \<and> Iy_centroid r < 0)"
    unfolding i Let_def
    by (simp add: face_result_def ImGuiAreaMomentsResult_init_def c_sqrt_def q)
qed


text \<open>The unit square.\<close>

theorem section_property_guards_witness:
  "\<exists>item'. result square_item = ImGuiAreaMomentsResult_init \<and>
     CalculateFace square_item = Some (True, item') \<and>
     Sx_min (result item') \<noteq> None \<and> Sy_min (result item') \<noteq> None \<and>
     (Rx (result item') = None \<longleftrightarrow>
        area_f (result item') > 1 / 10 ^ 10 \<and> Ix_centroid (result item') < 0)"
proof -
  have pf: "pFace square_item = Some square_face" by (simp add: square_item_def)
  have fd: "FacetData square_face 0.001 =
      Some [0, 0, 0, 1, 0, 0, 1, 1, 0, 0, 0, 0, 1, 1, 0, 0, 1, 0]"
    by (simp add: square_face_def)
  have len: "10 \<le> length [0, 0, 0, 1, 0, 0, 1, 1, 0, 0, 0, 0, 1, 1, 0, 0, 1, 0 :: real]" by simp
  have r: "result square_item = ImGuiAreaMomentsResult_init" by (simp add: square_item_def)
  obtain item' where i: "CalculateFace square_item = Some (True, item')"
    using CalculateFace_succeeds[OF pf fd len] by blast
  show ?thesis
    using section_property_guards[of square_item item'] r i by (auto simp: Let_def)
qed

text \<open>
  Claim C9 as stated says that the four fields are never NaN, for every input. On the
  face with two triangles of opposite winding the area is 3/2 and Ix is -233/108, and
  Rx is the root of a negative number.
\<close>

theorem radius_of_gyration_not_a_number:
  "result mixed_item = ImGuiAreaMomentsResult_init \<and>
   map_option fst (CalculateFace mixed_item) = Some True \<and>
   map_option (Rx \<circ> result \<circ> snd) (CalculateFace mixed_item) = Some None"
proof -
  have pf: "pFace mixed_item = Some mixed_face" by (simp add: mixed_item_def)
  have fd: "FacetData mixed_face 0.001 =
      Some [0, 0, 0, 1, 0, 0, 0, 1, 0, 0, 0, 0, 0, 2, 0, 2, 0, 0]"
    by (simp add: mixed_face_def)
  have len: "10 \<le> length [0, 0, 0, 1, 0, 0, 0, 1, 0, 0, 0, 0, 0, 2, 0, 2, 0, 0 :: real]" by simp
  obtain v b cxm cym where
    e: "ExtractFaceMesh (Some mixed_face) [] [] 0 =
        Some (True, v, map int [0..<3 * (length [0, 0, 0, 1, 0, 0, 0, 1, 0, 0, 0, 0, 0, 2, 0, 2, 0, 0 :: real] div 9)], 0)"
    and b: "b = moments v (map int [0..<3 * (length [0, 0, 0, 1, 0, 0, 0, 1, 0, 0, 0, 0, 0, 2, 0, 2, 0, 0 :: real] div 9)])"
    and c: "CalculateFace mixed_item =
        Some (True, mixed_item\<lparr>result := face_result (result mixed_item) b 0 cxm cym
                                       (GetFaceTypeName (pFace mixed_item)),
                           hasResult := True\<rparr>)"
    using CalculateFace_succeeds[OF pf fd len] by blast
  have v: "v = [0, 0, 1, 0, 0, 1, 0, 0, 0, 2, 2, 0]" using e mixed_face_mesh by simp
  have b': "b = moments [0, 0, 1, 0, 0, 1, 0, 0, 0, 2, 2, 0] [0, 1, 2, 3, 4, 5]"
    using b v by (simp add: upt_rec)
  have s: "tri_sum tri_area [0, 0, 1, 0, 0, 1, 0, 0, 0, 2, 2, 0] [0, 1, 2, 3, 4, 5] = - 3 / 2"
    "tri_sum tri_my [0, 0, 1, 0, 0, 1, 0, 0, 0, 2, 2, 0] [0, 1, 2, 3, 4, 5] = - 7 / 6"
    "tri_sum tri_Ix [0, 0, 1, 0, 0, 1, 0, 0, 0, 2, 2, 0] [0, 1, 2, 3, 4, 5] = - 5 / 4"
    by (simp_all add: tri_sum_2 tri_def tri_area_def tri_my_def tri_Ix_def
        SignedTriangleArea_def TriangleCentroid_def TriangleMomentsAboutOrigin_def)
  have "area b = 3 / 2" "Ix b = - 233 / 108"
    unfolding b' moments_def Let_def s by (simp_all add: principal_keeps)
  then have "Rx (face_result (result mixed_item) b 0 cxm cym (GetFaceTypeName (pFace mixed_item))) = None"
    by (simp add: face_result_def c_sqrt_def)
  then show ?thesis using c by (simp add: mixed_item_def)
qed

subsection \<open>Vectors\<close>

lemma Vec_sel [simp]: "vx (Vec a b c) = a" "vy (Vec a b c) = b" "vz (Vec a b c) = c"
  by (simp_all add: Vec_def)

lemma Vector3D_eqI: "vx u = vx v \<Longrightarrow> vy u = vy v \<Longrightarrow> vz u = vz v \<Longrightarrow> (u :: Vector3D) = v"
  by simp

lemma Length_sq: "Length u * Length u = Dot u u"
  by (simp add: Length_def Dot_def)

lemma Length_nonneg: "0 \<le> Length u"
  by (simp add: Length_def)

lemma Normalize_big:
  assumes "Length u > 1 / 10 ^ 10"
  shows "Normalize u = Vec (vx u / Length u) (vy u / Length u) (vz u / Length u)"
  using assms by (simp add: Normalize_def Let_def)

lemma Normalize_unit:
  assumes "Length u > 1 / 10 ^ 10"
  shows "Dot (Normalize u) (Normalize u) = 1"
proof -
  have p: "Length u > 0" using assms by (smt (verit) divide_pos_pos zero_less_power)
  have "Dot (Normalize u) (Normalize u) = Dot u u / (Length u * Length u)"
    unfolding Normalize_big[OF assms] by (simp add: Dot_def add_divide_distrib)
  then show ?thesis using p by (simp add: Length_sq[symmetric])
qed

lemma Normalize_Dot:
  assumes "Length u > 1 / 10 ^ 10"
  shows "Dot (Normalize u) w = Dot u w / Length u"
  unfolding Normalize_big[OF assms] by (simp add: Dot_def add_divide_distrib)

lemma Length_gt_if:
  assumes "1 / 10 ^ 20 < Dot u u"
  shows "Length u > 1 / 10 ^ 10"
proof -
  have "(1 / 10 ^ 10 :: real)\<^sup>2 < Dot u u" using assms by (simp add: power2_eq_square)
  then have "1 / 10 ^ 10 < sqrt (Dot u u)" by (rule real_less_rsqrt)
  then show ?thesis by (simp add: Length_def Dot_def)
qed

lemma Length_unit: "Dot u u = 1 \<Longrightarrow> Length u = 1"
  by (simp add: Length_def Dot_def)

lemma Normalize_of_unit: "Dot u u = 1 \<Longrightarrow> Normalize u = u"
  by (simp add: Normalize_def Length_unit Let_def Vec_def)

lemma Cross_Dot_left: "Dot (Cross u v) u = 0"
  by (simp add: Dot_def Cross_def algebra_simps)

lemma Cross_Dot_right: "Dot (Cross u v) v = 0"
  by (simp add: Dot_def Cross_def algebra_simps)

lemma Dot_commute: "Dot u v = Dot v u"
  by (simp add: Dot_def algebra_simps)

lemma Lagrange: "Dot (Cross u v) (Cross u v) = Dot u u * Dot v v - Dot u v * Dot u v"
  by (simp add: Dot_def Cross_def algebra_simps)

lemma Cross_Cross: "Cross u (Cross z u) =
  Vec (Dot u u * vx z - Dot u z * vx u) (Dot u u * vy z - Dot u z * vy u)
      (Dot u u * vz z - Dot u z * vz u)"
  by (simp add: Dot_def Cross_def Vec_def algebra_simps)

lemma Cross_Cross': "Cross (Cross u v) u =
  Vec (Dot u u * vx v - Dot u v * vx u) (Dot u u * vy v - Dot u v * vy u)
      (Dot u u * vz v - Dot u v * vz u)"
  by (simp add: Dot_def Cross_def Vec_def algebra_simps)

text \<open>The expansion of a dot product in the frame \<open>u\<close>, \<open>v\<close>, \<open>u \<times> v\<close>.\<close>

lemma frame_expand:
  "(Dot u u * Dot v v - Dot u v * Dot u v) * Dot p w =
     Dot (Cross u v) p * Dot (Cross u v) w
     + (Dot v v * Dot u p - Dot u v * Dot v p) * Dot u w
     + (Dot u u * Dot v p - Dot u v * Dot u p) * Dot v w"
  by (simp add: Dot_def Cross_def algebra_simps)

lemma Vec_eta: "Vec (vx u) (vy u) (vz u) = u"
  by (simp add: Vec_def)

lemma frame_from:
  assumes z: "Dot z z = 1" and wz: "Dot w z = 0" and len: "Length w > 1 / 10 ^ 10"
  shows "right_handed_basis (Normalize w) (Normalize (Cross z (Normalize w))) z"
proof -
  let ?x = "Normalize w"
  have xx: "Dot ?x ?x = 1" by (rule Normalize_unit[OF len])
  have xz: "Dot ?x z = 0" using Normalize_Dot[OF len, of z] wz by simp
  have zx: "Dot z ?x = 0" using xz by (simp add: Dot_commute)
  have cc: "Dot (Cross z ?x) (Cross z ?x) = 1"
    unfolding Lagrange by (simp add: z xx zx)
  have n: "Normalize (Cross z ?x) = Cross z ?x" by (rule Normalize_of_unit[OF cc])
  have xc: "Dot ?x (Cross z ?x) = 0"
    using Cross_Dot_right[of z ?x] by (simp add: Dot_commute)
  have "Cross ?x (Cross z ?x) = z"
    unfolding Cross_Cross by (simp add: xx xz Vec_eta)
  then show ?thesis
    unfolding right_handed_basis_def n using xx cc xc by simp
qed

lemma sq_less: "\<bar>a\<bar> < (9 / 10 :: real) \<Longrightarrow> a * a < 81 / 100"
proof -
  assume "\<bar>a\<bar> < 9 / 10"
  then have "\<bar>a\<bar> ^ 2 < (9 / 10) ^ 2" by (intro power_strict_mono) simp_all
  then show ?thesis by (simp add: power2_eq_square)
qed

lemma sq_ge: "\<not> \<bar>a\<bar> < (9 / 10 :: real) \<Longrightarrow> 81 / 100 \<le> a * a"
proof -
  assume "\<not> \<bar>a\<bar> < 9 / 10"
  then have "9 / 10 \<le> \<bar>a\<bar>" by simp
  then have "(9 / 10) ^ 2 \<le> \<bar>a\<bar> ^ 2" by (intro power_mono) simp_all
  then show ?thesis by (simp add: power2_eq_square)
qed

lemma basis_of_right_handed:
  assumes "Length normal > 1 / 10 ^ 10"
  shows "right_handed_basis (fst (basis_of normal)) (snd (basis_of normal)) (Normalize normal)"
proof -
  let ?z = "Normalize normal"
  have zz: "Dot ?z ?z = 1" by (rule Normalize_unit[OF assms])
  have yy: "Dot (Vec 0 1 0) (Vec 0 1 0) = 1" "Dot (Vec 1 0 0) (Vec 1 0 0) = 1"
    by (simp_all add: Dot_def)
  show ?thesis
  proof (cases "\<bar>Dot ?z (Vec 0 1 0)\<bar> < 0.9")
    case True
    let ?w = "Cross (Vec 0 1 0) ?z"
    have wz: "Dot ?w ?z = 0" by (rule Cross_Dot_right)
    have "Dot ?z (Vec 0 1 0) * Dot ?z (Vec 0 1 0) < 81 / 100"
      using True by (intro sq_less) simp
    then have "1 / 10 ^ 20 < Dot ?w ?w"
      unfolding Lagrange by (simp add: zz yy Dot_commute[of "Vec 0 1 0" ?z])
    then have len: "Length ?w > 1 / 10 ^ 10" by (rule Length_gt_if)
    show ?thesis
      using frame_from[OF zz wz len] True by (simp add: basis_of_def Let_def)
  next
    case False
    let ?w = "Cross ?z (Vec 1 0 0)"
    have wz: "Dot ?w ?z = 0" by (rule Cross_Dot_left)
    have a: "81 / 100 \<le> Dot ?z (Vec 0 1 0) * Dot ?z (Vec 0 1 0)"
      using False by (intro sq_ge) simp
    have "Dot ?z (Vec 0 1 0) * Dot ?z (Vec 0 1 0) + Dot ?z (Vec 1 0 0) * Dot ?z (Vec 1 0 0) \<le> Dot ?z ?z"
      by (simp add: Dot_def)
    then have "Dot ?z (Vec 1 0 0) * Dot ?z (Vec 1 0 0) \<le> 19 / 100" using a zz by simp
    then have "1 / 10 ^ 20 < Dot ?w ?w"
      unfolding Lagrange by (simp add: zz yy)
    then have len: "Length ?w > 1 / 10 ^ 10" by (rule Length_gt_if)
    show ?thesis
      using frame_from[OF zz wz len] False by (simp add: basis_of_def Let_def)
  qed
qed

lemma triple_shift: "Dot u (Cross v w) = Dot (Cross u v) w"
  by (simp add: Dot_def Cross_def algebra_simps)

lemma Cross_swap_Dot: "Dot (Cross u v) w = - Dot (Cross v u) w"
  by (simp add: Dot_def Cross_def algebra_simps)

lemma Cross_Cross_right: "Cross (Cross u v) v =
  Vec (Dot u v * vx v - Dot v v * vx u) (Dot u v * vy v - Dot v v * vy u)
      (Dot u v * vz v - Dot v v * vz u)"
  by (simp add: Dot_def Cross_def Vec_def algebra_simps)

lemma Dot_uminus_Vec: "Dot (Vec (- vx u) (- vy u) (- vz u)) w = - Dot u w"
  by (simp add: Dot_def)

lemma change_of_basis:
  assumes b1: "right_handed_basis x1 y1 z" and b2: "right_handed_basis x2 y2 z"
  shows "Dot x2 x1 * Dot x2 x1 + Dot x2 y1 * Dot x2 y1 = 1"
    and "Dot p x2 = Dot x2 x1 * Dot p x1 + Dot x2 y1 * Dot p y1"
    and "Dot p y2 = - Dot x2 y1 * Dot p x1 + Dot x2 x1 * Dot p y1"
proof -
  have o1: "Dot x1 x1 = 1" "Dot y1 y1 = 1" "Dot x1 y1 = 0" "Cross x1 y1 = z"
    using b1 by (simp_all add: right_handed_basis_def)
  have o2: "Dot x2 x2 = 1" "Dot y2 y2 = 1" "Dot x2 y2 = 0" "Cross x2 y2 = z"
    using b2 by (simp_all add: right_handed_basis_def)
  have E: "Dot q w = Dot q z * Dot w z + Dot q x1 * Dot w x1 + Dot q y1 * Dot w y1" for q w
    using frame_expand[of x1 y1 q w]
    by (simp add: o1 Dot_commute[of z q] Dot_commute[of z w] Dot_commute[of x1 q]
        Dot_commute[of x1 w] Dot_commute[of y1 q] Dot_commute[of y1 w])
  have "Dot z x2 = 0" unfolding o2(4)[symmetric] by (rule Cross_Dot_left)
  then have zx2: "Dot x2 z = 0" by (simp add: Dot_commute[of x2 z])
  have "Dot z y2 = 0" unfolding o2(4)[symmetric] by (rule Cross_Dot_right)
  then have zy2: "Dot y2 z = 0" by (simp add: Dot_commute[of y2 z])
  show px: "Dot p x2 = Dot x2 x1 * Dot p x1 + Dot x2 y1 * Dot p y1"
    using E[of p x2] by (simp add: zx2 mult.commute)
  show "Dot x2 x1 * Dot x2 x1 + Dot x2 y1 * Dot x2 y1 = 1"
    using E[of x2 x2] by (simp add: zx2 o2)
  have y2: "y2 = Cross z x2"
    unfolding o2(4)[symmetric] Cross_Cross' by (simp add: o2 Vec_eta)
  have zx1: "Cross z x1 = y1"
    unfolding o1(4)[symmetric] Cross_Cross' by (simp add: o1 Vec_eta)
  have zy1: "Cross z y1 = Vec (- vx x1) (- vy x1) (- vz x1)"
    unfolding o1(4)[symmetric] Cross_Cross_right by (simp add: o1)
  have "Dot y2 x1 = Dot x1 (Cross z x2)" unfolding y2 by (rule Dot_commute)
  also have "\<dots> = Dot (Cross x1 z) x2" by (rule triple_shift)
  also have "\<dots> = - Dot (Cross z x1) x2" by (rule Cross_swap_Dot)
  also have "\<dots> = - Dot x2 y1" unfolding zx1 by (simp add: Dot_commute[of y1 x2])
  finally have a: "Dot y2 x1 = - Dot x2 y1" .
  have "Dot y2 y1 = Dot y1 (Cross z x2)" unfolding y2 by (rule Dot_commute)
  also have "\<dots> = Dot (Cross y1 z) x2" by (rule triple_shift)
  also have "\<dots> = - Dot (Cross z y1) x2" by (rule Cross_swap_Dot)
  also have "\<dots> = Dot x2 x1" unfolding zy1 Dot_uminus_Vec by (simp add: Dot_commute[of x1 x2])
  finally have b: "Dot y2 y1 = Dot x2 x1" .
  show "Dot p y2 = - Dot x2 y1 * Dot p x1 + Dot x2 x1 * Dot p y1"
    using E[of p y2] by (simp add: zy2 a b mult.commute)
qed

subsection \<open>Calculate under a rotation of the plane\<close>

lemma mesh_ok_length: "length v2 = length v1 \<Longrightarrow> mesh_ok v2 ix = mesh_ok v1 ix"
  by (simp add: mesh_ok_def index_ok_def[abs_def])

lemma rotated_vertex:
  assumes "rotated c s v1 v2" "index_ok v1 i"
  shows "v2 ! nat (i * 2) = c * v1 ! nat (i * 2) + s * v1 ! nat (i * 2 + 1)"
    "v2 ! nat (i * 2 + 1) = - s * v1 ! nat (i * 2) + c * v1 ! nat (i * 2 + 1)"
proof -
  have n: "nat (i * 2) = 2 * nat i" "nat (i * 2 + 1) = 2 * nat i + 1"
    using assms(2) by (auto simp: index_ok_def nat_add_distrib nat_mult_distrib)
  have "2 * nat i + 1 < length v1" using assms(2) by (auto simp: index_ok_def)
  then show "v2 ! nat (i * 2) = c * v1 ! nat (i * 2) + s * v1 ! nat (i * 2 + 1)"
    "v2 ! nat (i * 2 + 1) = - s * v1 ! nat (i * 2) + c * v1 ! nat (i * 2 + 1)"
    using assms(1) unfolding rotated_def n by blast+
qed

lemma tri_rotated:
  assumes "rotated c s v1 v2" "mesh_ok v1 ix" "t < length ix div 3"
  shows "tri v2 ix t = rot_tri c s (tri v1 ix t)"
proof -
  have k: "3 * t < 3 * (length ix div 3)" "Suc (3 * t) < 3 * (length ix div 3)"
    "Suc (Suc (3 * t)) < 3 * (length ix div 3)" using assms(3) by auto
  note i = mesh_ok_index[OF assms(2) k(1)] mesh_ok_index[OF assms(2) k(2)]
    mesh_ok_index[OF assms(2) k(3)]
  show ?thesis
    unfolding tri_def Let_def
    by (simp add: rotated_vertex[OF assms(1) i(1)] rotated_vertex[OF assms(1) i(2)]
        rotated_vertex[OF assms(1) i(3)])
qed

lemma rot_tri_area: "tri_area (rot_tri c s T) = (c * c + s * s) * tri_area T"
  by (cases T) (simp add: tri_area_def SignedTriangleArea_def field_simps)

lemma rot_tri_mx:
  "tri_mx (rot_tri c s T) = (c * c + s * s) * (c * tri_mx T + s * tri_my T)"
  by (cases T)
    (simp add: tri_mx_def tri_my_def SignedTriangleArea_def TriangleCentroid_def field_simps)

lemma rot_tri_my:
  "tri_my (rot_tri c s T) = (c * c + s * s) * (- s * tri_mx T + c * tri_my T)"
  by (cases T)
    (simp add: tri_mx_def tri_my_def SignedTriangleArea_def TriangleCentroid_def field_simps)

lemma rot_SignedTriangleArea:
  "SignedTriangleArea (c * x1 + s * y1) (- s * x1 + c * y1) (c * x2 + s * y2) (- s * x2 + c * y2)
     (c * x3 + s * y3) (- s * x3 + c * y3) =
   (c * c + s * s) * SignedTriangleArea x1 y1 x2 y2 x3 y3"
  by (simp add: SignedTriangleArea_def field_simps)

lemma rot_quadratic:
  fixes c s x1 y1 x2 y2 x3 y3 :: real
  defines "Qx \<equiv> x1 * x1 + x2 * x2 + x3 * x3 + x1 * x2 + x2 * x3 + x3 * x1"
    and "Qy \<equiv> y1 * y1 + y2 * y2 + y3 * y3 + y1 * y2 + y2 * y3 + y3 * y1"
    and "P \<equiv> x1 * (2 * y1 + y2 + y3) + x2 * (y1 + 2 * y2 + y3) + x3 * (y1 + y2 + 2 * y3)"
  shows "(- s * x1 + c * y1) * (- s * x1 + c * y1) + (- s * x2 + c * y2) * (- s * x2 + c * y2)
       + (- s * x3 + c * y3) * (- s * x3 + c * y3) + (- s * x1 + c * y1) * (- s * x2 + c * y2)
       + (- s * x2 + c * y2) * (- s * x3 + c * y3) + (- s * x3 + c * y3) * (- s * x1 + c * y1)
     = s * s * Qx - s * c * P + c * c * Qy"
    and "(c * x1 + s * y1) * (c * x1 + s * y1) + (c * x2 + s * y2) * (c * x2 + s * y2)
       + (c * x3 + s * y3) * (c * x3 + s * y3) + (c * x1 + s * y1) * (c * x2 + s * y2)
       + (c * x2 + s * y2) * (c * x3 + s * y3) + (c * x3 + s * y3) * (c * x1 + s * y1)
     = c * c * Qx + s * c * P + s * s * Qy"
    and "(c * x1 + s * y1) * (2 * (- s * x1 + c * y1) + (- s * x2 + c * y2) + (- s * x3 + c * y3))
       + (c * x2 + s * y2) * ((- s * x1 + c * y1) + 2 * (- s * x2 + c * y2) + (- s * x3 + c * y3))
       + (c * x3 + s * y3) * ((- s * x1 + c * y1) + (- s * x2 + c * y2) + 2 * (- s * x3 + c * y3))
     = (c * c - s * s) * P + 2 * s * c * (Qy - Qx)"
  unfolding Qx_def Qy_def P_def by (simp_all add: algebra_simps)

lemma rot_tri_moments:
  "tri_Ix (rot_tri c s T) =
     (c * c + s * s) * (s * s * tri_Iy T - 2 * s * c * tri_Ixy T + c * c * tri_Ix T)"
  "tri_Iy (rot_tri c s T) =
     (c * c + s * s) * (c * c * tri_Iy T + 2 * s * c * tri_Ixy T + s * s * tri_Ix T)"
  "tri_Ixy (rot_tri c s T) =
     (c * c + s * s) * ((c * c - s * s) * tri_Ixy T + s * c * (tri_Ix T - tri_Iy T))"
proof -
  obtain x1 y1 x2 y2 x3 y3 where T: "T = (x1, y1, x2, y2, x3, y3)" by (cases T) auto
  define A where "A = SignedTriangleArea x1 y1 x2 y2 x3 y3"
  define Qx where "Qx = x1 * x1 + x2 * x2 + x3 * x3 + x1 * x2 + x2 * x3 + x3 * x1"
  define Qy where "Qy = y1 * y1 + y2 * y2 + y3 * y3 + y1 * y2 + y2 * y3 + y3 * y1"
  define P where "P = x1 * (2 * y1 + y2 + y3) + x2 * (y1 + 2 * y2 + y3) + x3 * (y1 + y2 + 2 * y3)"
  note q = rot_quadratic[where c = c and s = s and ?x1.0 = x1 and ?y1.0 = y1 and ?x2.0 = x2
      and ?y2.0 = y2 and ?x3.0 = x3 and ?y3.0 = y3, folded Qx_def Qy_def P_def]
  note a = rot_SignedTriangleArea[where c = c and s = s and ?x1.0 = x1 and ?y1.0 = y1
      and ?x2.0 = x2 and ?y2.0 = y2 and ?x3.0 = x3 and ?y3.0 = y3, folded A_def]
  have o: "tri_Ix T = (A / 6.0) * Qy" "tri_Iy T = (A / 6.0) * Qx" "tri_Ixy T = (A / 12.0) * P"
    unfolding T tri_Ix_def tri_Iy_def tri_Ixy_def prod.case TriangleMomentsAboutOrigin_def
      fst_conv snd_conv A_def Qx_def Qy_def P_def by (rule refl)+
  have r: "tri_Ix (rot_tri c s T) = ((c * c + s * s) * A / 6.0) * (s * s * Qx - s * c * P + c * c * Qy)"
    "tri_Iy (rot_tri c s T) = ((c * c + s * s) * A / 6.0) * (c * c * Qx + s * c * P + s * s * Qy)"
    "tri_Ixy (rot_tri c s T) = ((c * c + s * s) * A / 12.0) * ((c * c - s * s) * P + 2 * s * c * (Qy - Qx))"
    unfolding T rot_tri.simps tri_Ix_def tri_Iy_def tri_Ixy_def prod.case
      TriangleMomentsAboutOrigin_def fst_conv snd_conv a q by (rule refl)+
  show "tri_Ix (rot_tri c s T) =
     (c * c + s * s) * (s * s * tri_Iy T - 2 * s * c * tri_Ixy T + c * c * tri_Ix T)"
    unfolding o r by (simp add: field_simps)
  show "tri_Iy (rot_tri c s T) =
     (c * c + s * s) * (c * c * tri_Iy T + 2 * s * c * tri_Ixy T + s * s * tri_Ix T)"
    unfolding o r by (simp add: field_simps)
  show "tri_Ixy (rot_tri c s T) =
     (c * c + s * s) * ((c * c - s * s) * tri_Ixy T + s * c * (tri_Ix T - tri_Iy T))"
    unfolding o r by (simp add: field_simps)
qed

lemma tri_sum_cong:
  assumes "\<And>t. t < length ix div 3 \<Longrightarrow> f (tri v2 ix t) = g (tri v1 ix t)"
  shows "tri_sum f v2 ix = tri_sum g v1 ix"
  unfolding tri_sum_def using assms by (intro sum.cong) simp_all

lemma tri_sum_add: "tri_sum (\<lambda>T. f T + g T) v ix = tri_sum f v ix + tri_sum g v ix"
  by (simp add: tri_sum_def sum.distrib)

lemma tri_sum_diff: "tri_sum (\<lambda>T. f T - g T) v ix = tri_sum f v ix - tri_sum g v ix"
  by (simp add: tri_sum_def sum_subtractf)

lemma tri_sum_scale: "tri_sum (\<lambda>T. k * f T) v ix = k * tri_sum f v ix"
  by (simp add: tri_sum_def sum_distrib_left)

lemma tri_sum_rotated:
  assumes r: "rotated c s v1 v2" and ok: "mesh_ok v1 ix" and u: "c * c + s * s = 1"
  shows "tri_sum tri_area v2 ix = tri_sum tri_area v1 ix"
    and "tri_sum tri_mx v2 ix = c * tri_sum tri_mx v1 ix + s * tri_sum tri_my v1 ix"
    and "tri_sum tri_my v2 ix = - s * tri_sum tri_mx v1 ix + c * tri_sum tri_my v1 ix"
    and "tri_sum tri_Ix v2 ix = s * s * tri_sum tri_Iy v1 ix - 2 * s * c * tri_sum tri_Ixy v1 ix
           + c * c * tri_sum tri_Ix v1 ix"
    and "tri_sum tri_Iy v2 ix = c * c * tri_sum tri_Iy v1 ix + 2 * s * c * tri_sum tri_Ixy v1 ix
           + s * s * tri_sum tri_Ix v1 ix"
    and "tri_sum tri_Ixy v2 ix = (c * c - s * s) * tri_sum tri_Ixy v1 ix
           + s * c * (tri_sum tri_Ix v1 ix - tri_sum tri_Iy v1 ix)"
proof -
  note t = tri_rotated[OF r ok]
  have "tri_sum tri_area v2 ix = tri_sum (\<lambda>T. tri_area T) v1 ix"
    by (rule tri_sum_cong) (simp add: t rot_tri_area u)
  then show "tri_sum tri_area v2 ix = tri_sum tri_area v1 ix" .
  have "tri_sum tri_mx v2 ix = tri_sum (\<lambda>T. c * tri_mx T + s * tri_my T) v1 ix"
    by (rule tri_sum_cong) (simp add: t rot_tri_mx u)
  then show "tri_sum tri_mx v2 ix = c * tri_sum tri_mx v1 ix + s * tri_sum tri_my v1 ix"
    by (simp add: tri_sum_add tri_sum_scale)
  have "tri_sum tri_my v2 ix = tri_sum (\<lambda>T. (- s) * tri_mx T + c * tri_my T) v1 ix"
    by (rule tri_sum_cong) (simp add: t rot_tri_my u)
  then show "tri_sum tri_my v2 ix = - s * tri_sum tri_mx v1 ix + c * tri_sum tri_my v1 ix"
    by (simp only: tri_sum_add tri_sum_scale)
  have "tri_sum tri_Ix v2 ix =
    tri_sum (\<lambda>T. ((s * s) * tri_Iy T - (2 * s * c) * tri_Ixy T) + (c * c) * tri_Ix T) v1 ix"
    by (rule tri_sum_cong) (simp add: t rot_tri_moments(1) u)
  then show "tri_sum tri_Ix v2 ix = s * s * tri_sum tri_Iy v1 ix
      - 2 * s * c * tri_sum tri_Ixy v1 ix + c * c * tri_sum tri_Ix v1 ix"
    by (simp only: tri_sum_add tri_sum_diff tri_sum_scale)
  have "tri_sum tri_Iy v2 ix =
    tri_sum (\<lambda>T. ((c * c) * tri_Iy T + (2 * s * c) * tri_Ixy T) + (s * s) * tri_Ix T) v1 ix"
    by (rule tri_sum_cong) (simp add: t rot_tri_moments(2) u)
  then show "tri_sum tri_Iy v2 ix = c * c * tri_sum tri_Iy v1 ix
      + 2 * s * c * tri_sum tri_Ixy v1 ix + s * s * tri_sum tri_Ix v1 ix"
    by (simp only: tri_sum_add tri_sum_scale)
  have "tri_sum tri_Ixy v2 ix =
    tri_sum (\<lambda>T. (c * c - s * s) * tri_Ixy T + ((s * c) * tri_Ix T - (s * c) * tri_Iy T)) v1 ix"
    by (rule tri_sum_cong) (simp add: t rot_tri_moments(3) u algebra_simps)
  then show "tri_sum tri_Ixy v2 ix = (c * c - s * s) * tri_sum tri_Ixy v1 ix
      + s * c * (tri_sum tri_Ix v1 ix - tri_sum tri_Iy v1 ix)"
    by (simp only: tri_sum_add tri_sum_diff tri_sum_scale right_diff_distrib)
qed

lemma principal_Imin_Imax:
  "Imin (principal q) = (Ix q + Iy q) / 2 - sqrt (((Ix q - Iy q) / 2)\<^sup>2 + (Ixy q)\<^sup>2)"
  "Imax (principal q) = (Ix q + Iy q) / 2 + sqrt (((Ix q - Iy q) / 2)\<^sup>2 + (Ixy q)\<^sup>2)"
  by (simp_all add: principal_def Let_def power2_eq_square)

lemma rotation_invariants:
  fixes c s jx jy jxy :: real
  assumes u: "c * c + s * s = 1"
  shows "(s * s * jy - 2 * s * c * jxy + c * c * jx) + (c * c * jy + 2 * s * c * jxy + s * s * jx)
      = jx + jy"
    and "(((s * s * jy - 2 * s * c * jxy + c * c * jx) - (c * c * jy + 2 * s * c * jxy + s * s * jx)) / 2)\<^sup>2
        + ((c * c - s * s) * jxy + s * c * (jx - jy))\<^sup>2
      = ((jx - jy) / 2)\<^sup>2 + jxy\<^sup>2"
proof -
  have "(s * s * jy - 2 * s * c * jxy + c * c * jx) + (c * c * jy + 2 * s * c * jxy + s * s * jx)
      = (c * c + s * s) * (jx + jy)"
    by (simp add: algebra_simps)
  then show "(s * s * jy - 2 * s * c * jxy + c * c * jx) + (c * c * jy + 2 * s * c * jxy + s * s * jx)
      = jx + jy" by (simp add: u)
  have "(((s * s * jy - 2 * s * c * jxy + c * c * jx) - (c * c * jy + 2 * s * c * jxy + s * s * jx)) / 2)\<^sup>2
        + ((c * c - s * s) * jxy + s * c * (jx - jy))\<^sup>2
      = (c * c + s * s) * (c * c + s * s) * (((jx - jy) / 2)\<^sup>2 + jxy\<^sup>2)"
    by (simp add: power2_eq_square field_simps)
  then show "(((s * s * jy - 2 * s * c * jxy + c * c * jx) - (c * c * jy + 2 * s * c * jxy + s * s * jx)) / 2)\<^sup>2
        + ((c * c - s * s) * jxy + s * c * (jx - jy))\<^sup>2
      = ((jx - jy) / 2)\<^sup>2 + jxy\<^sup>2" by (simp add: u)
qed

lemma principal_rotation:
  assumes u: "c * c + s * s = 1"
    and "Ix q' = s * s * Iy q - 2 * s * c * Ixy q + c * c * Ix q"
    and "Iy q' = c * c * Iy q + 2 * s * c * Ixy q + s * s * Ix q"
    and "Ixy q' = (c * c - s * s) * Ixy q + s * c * (Ix q - Iy q)"
  shows "Imin (principal q') = Imin (principal q)" "Imax (principal q') = Imax (principal q)"
  unfolding principal_Imin_Imax assms(2,3,4) rotation_invariants[OF u] by simp_all

lemma moments_rotated:
  assumes r: "rotated c s v1 v2" and ok: "mesh_ok v1 ix" and u: "c * c + s * s = 1"
  shows "Imin (moments v2 ix) = Imin (moments v1 ix)" "Imax (moments v2 ix) = Imax (moments v1 ix)"
proof -
  note ts = tri_sum_rotated[OF r ok u]
  define A where "A = tri_sum tri_area v1 ix"
  define cx where "cx = tri_sum tri_mx v1 ix / A"
  define cy where "cy = tri_sum tri_my v1 ix / A"
  define jx where "jx = tri_sum tri_Ix v1 ix"
  define jy where "jy = tri_sum tri_Iy v1 ix"
  define jxy where "jxy = tri_sum tri_Ixy v1 ix"
  define q where "q = \<lparr>area = \<bar>A\<bar>, Cx = cx, Cy = cy,
            Ix = jx - \<bar>A\<bar> * cy * cy, Iy = jy - \<bar>A\<bar> * cx * cx, Ixy = jxy - \<bar>A\<bar> * cx * cy,
            Imin = 0, Imax = 0, theta = 0\<rparr>"
  define q' where "q' = \<lparr>area = \<bar>A\<bar>, Cx = c * cx + s * cy, Cy = - s * cx + c * cy,
            Ix = (s * s * jy - 2 * s * c * jxy + c * c * jx)
                   - \<bar>A\<bar> * (- s * cx + c * cy) * (- s * cx + c * cy),
            Iy = (c * c * jy + 2 * s * c * jxy + s * s * jx)
                   - \<bar>A\<bar> * (c * cx + s * cy) * (c * cx + s * cy),
            Ixy = ((c * c - s * s) * jxy + s * c * (jx - jy))
                   - \<bar>A\<bar> * (c * cx + s * cy) * (- s * cx + c * cy),
            Imin = 0, Imax = 0, theta = 0\<rparr>"
  have cx': "tri_sum tri_mx v2 ix / A = c * cx + s * cy"
    by (simp add: ts cx_def cy_def add_divide_distrib)
  have cy': "tri_sum tri_my v2 ix / A = - s * cx + c * cy"
    by (simp add: ts cx_def cy_def add_divide_distrib diff_divide_distrib)
  have m1: "moments v1 ix = (if \<bar>A\<bar> < 1 / 10 ^ 15 then AreaMomentsResult_init else principal q)"
    unfolding moments_def Let_def q_def cx_def cy_def jx_def jy_def jxy_def A_def by (rule refl)
  have "moments v2 ix = (if \<bar>A\<bar> < 1 / 10 ^ 15 then AreaMomentsResult_init else principal
     \<lparr>area = \<bar>A\<bar>, Cx = tri_sum tri_mx v2 ix / A, Cy = tri_sum tri_my v2 ix / A,
      Ix = tri_sum tri_Ix v2 ix - \<bar>A\<bar> * (tri_sum tri_my v2 ix / A) * (tri_sum tri_my v2 ix / A),
      Iy = tri_sum tri_Iy v2 ix - \<bar>A\<bar> * (tri_sum tri_mx v2 ix / A) * (tri_sum tri_mx v2 ix / A),
      Ixy = tri_sum tri_Ixy v2 ix - \<bar>A\<bar> * (tri_sum tri_mx v2 ix / A) * (tri_sum tri_my v2 ix / A),
      Imin = 0, Imax = 0, theta = 0\<rparr>)"
    unfolding moments_def Let_def A_def ts(1) by (rule refl)
  then have m2: "moments v2 ix = (if \<bar>A\<bar> < 1 / 10 ^ 15 then AreaMomentsResult_init else principal q')"
    unfolding cx' cy' q'_def ts(4,5,6) jx_def jy_def jxy_def .
  have a: "Ix q' = s * s * Iy q - 2 * s * c * Ixy q + c * c * Ix q"
    unfolding q_def q'_def by (simp add: algebra_simps)
  have b: "Iy q' = c * c * Iy q + 2 * s * c * Ixy q + s * s * Ix q"
    unfolding q_def q'_def by (simp add: algebra_simps)
  have d: "Ixy q' = (c * c - s * s) * Ixy q + s * c * (Ix q - Iy q)"
    unfolding q_def q'_def by (simp add: algebra_simps)
  show "Imin (moments v2 ix) = Imin (moments v1 ix)"
    unfolding m1 m2 using principal_rotation(1)[OF u a b d] by simp
  show "Imax (moments v2 ix) = Imax (moments v1 ix)"
    unfolding m1 m2 using principal_rotation(2)[OF u a b d] by simp
qed

subsection \<open>The choice of the in-plane basis\<close>

lemma nth_projection:
  assumes "k < n"
  shows "concat (map (project_pair vs origin xA yA) [0..<n]) ! (2 * k) =
      Dot (vminus (vert3 vs k) origin) xA"
    and "concat (map (project_pair vs origin xA yA) [0..<n]) ! (2 * k + 1) =
      Dot (vminus (vert3 vs k) origin) yA"
proof -
  have k: "k < length [0..<n]" using assms by simp
  have e: "[0..<n] ! k = k" using assms by simp
  show "concat (map (project_pair vs origin xA yA) [0..<n]) ! (2 * k) =
      Dot (vminus (vert3 vs k) origin) xA"
    using nth_concat_pairs[OF k, of vs origin xA yA] unfolding e by (simp add: project_pair_def)
  show "concat (map (project_pair vs origin xA yA) [0..<n]) ! (2 * k + 1) =
      Dot (vminus (vert3 vs k) origin) yA"
    using nth_concat_pairs[OF k, of vs origin xA yA] unfolding e by (simp add: project_pair_def)
qed

lemma projections_rotated:
  assumes b1: "right_handed_basis x1 y1 z" and b2: "right_handed_basis x2 y2 z"
  shows "rotated (Dot x2 x1) (Dot x2 y1)
     (concat (map (project_pair vs origin x1 y1) [0..<n]))
     (concat (map (project_pair vs origin x2 y2) [0..<n]))"
  unfolding rotated_def
proof (intro conjI allI impI)
  show "length (concat (map (project_pair vs origin x2 y2) [0..<n])) =
    length (concat (map (project_pair vs origin x1 y1) [0..<n]))"
    by (simp add: length_concat_pairs)
next
  fix k
  assume "2 * k + 1 < length (concat (map (project_pair vs origin x1 y1) [0..<n]))"
  then have k: "k < n" by (simp add: length_concat_pairs)
  show "concat (map (project_pair vs origin x2 y2) [0..<n]) ! (2 * k) =
          Dot x2 x1 * concat (map (project_pair vs origin x1 y1) [0..<n]) ! (2 * k)
          + Dot x2 y1 * concat (map (project_pair vs origin x1 y1) [0..<n]) ! (2 * k + 1)"
    unfolding nth_projection[OF k] by (rule change_of_basis(2)[OF b1 b2])
  show "concat (map (project_pair vs origin x2 y2) [0..<n]) ! (2 * k + 1) =
          - Dot x2 y1 * concat (map (project_pair vs origin x1 y1) [0..<n]) ! (2 * k)
          + Dot x2 x1 * concat (map (project_pair vs origin x1 y1) [0..<n]) ! (2 * k + 1)"
    unfolding nth_projection[OF k] by (rule change_of_basis(3)[OF b1 b2])
qed


text \<open>
  Claim C4. Let the normal be longer than 1e-10, so that \<open>ProjectTo2D\<close> has a plane to
  project onto. The basis that \<open>ProjectTo2D\<close> builds is a right-handed orthonormal basis
  of the plane with that normal. Project the same 3D vertices with it and with any other
  right-handed orthonormal basis of the same plane, that is, with any rotation of it
  about the normal: on the two projected meshes, with the same index list, \<open>Calculate\<close>
  returns results with equal Imin and equal Imax.
\<close>

theorem principal_moments_basis_invariant:
  assumes "Length normal > 1 / 10 ^ 10"
    and "right_handed_basis x2 y2 (Normalize normal)"
    and "ProjectTo2D vertices3D normal origin = Some v1"
    and "project_loop vertices3D origin x2 y2 (length vertices3D div 3) 0 [] = Some v2"
    and "mesh_ok v1 indices"
  shows "right_handed_basis (fst (basis_of normal)) (snd (basis_of normal)) (Normalize normal) \<and>
    project_loop vertices3D origin (fst (basis_of normal)) (snd (basis_of normal))
      (length vertices3D div 3) 0 [] = Some v1 \<and>
    (\<exists>r1 r2. Calculate v1 indices = Some r1 \<and> Calculate v2 indices = Some r2 \<and>
       Imin r2 = Imin r1 \<and> Imax r2 = Imax r1)"
proof -
  let ?n = "length vertices3D div 3"
  let ?x1 = "fst (basis_of normal)" and ?y1 = "snd (basis_of normal)"
  have b1: "right_handed_basis ?x1 ?y1 (Normalize normal)"
    by (rule basis_of_right_handed[OF assms(1)])
  have le: "3 * ?n \<le> length vertices3D" by simp
  have v1: "v1 = concat (map (project_pair vertices3D origin ?x1 ?y1) [0..<?n])"
    using assms(3) ProjectTo2D_concat[of vertices3D normal origin] by simp
  have p1: "project_loop vertices3D origin ?x1 ?y1 ?n 0 [] = Some v1"
    using project_loop_map[OF le, of 0 origin ?x1 ?y1 "[]"] v1 by simp
  have v2: "v2 = concat (map (project_pair vertices3D origin x2 y2) [0..<?n])"
    using assms(4) project_loop_map[OF le, of 0 origin x2 y2 "[]"] by simp
  have r: "rotated (Dot x2 ?x1) (Dot x2 ?y1) v1 v2"
    unfolding v1 v2 by (rule projections_rotated[OF b1 assms(2)])
  have u: "Dot x2 ?x1 * Dot x2 ?x1 + Dot x2 ?y1 * Dot x2 ?y1 = 1"
    by (rule change_of_basis(1)[OF b1 assms(2)])
  have "length v2 = length v1" using r by (simp add: rotated_def)
  then have ok2: "mesh_ok v2 indices" using mesh_ok_length[of v2 v1 indices] assms(5) by simp
  have "Calculate v1 indices = Some (moments v1 indices)"
    "Calculate v2 indices = Some (moments v2 indices)"
    by (rule Calculate_moments[OF assms(5)], rule Calculate_moments[OF ok2])
  then show ?thesis
    using moments_rotated[OF r assms(5) u] b1 p1 by simp
qed

text \<open>
  The unit square in the plane z = 0, projected by \<open>ProjectTo2D\<close> and by the basis
  (3/5, 4/5, 0), (-4/5, 3/5, 0).
\<close>

theorem principal_moments_basis_invariant_witness:
  "Length (Vec 0 0 2) > 1 / 10 ^ 10 \<and>
   right_handed_basis (Vec (3 / 5) (4 / 5) 0) (Vec (- 4 / 5) (3 / 5) 0) (Normalize (Vec 0 0 2)) \<and>
   ProjectTo2D [0, 0, 0, 1, 0, 0, 1, 1, 0, 0, 1, 0] (Vec 0 0 2) (Vec 0 0 0)
     = Some [0, 0, 1, 0, 1, 1, 0, 1] \<and>
   project_loop [0, 0, 0, 1, 0, 0, 1, 1, 0, 0, 1, 0] (Vec 0 0 0) (Vec (3 / 5) (4 / 5) 0)
       (Vec (- 4 / 5) (3 / 5) 0) (length [0, 0, 0, 1, 0, 0, 1, 1, 0, 0, 1, 0 :: real] div 3) 0 []
     = Some [0, 0, 3 / 5, - 4 / 5, 7 / 5, - 1 / 5, 4 / 5, 3 / 5] \<and>
   mesh_ok [0, 0, 1, 0, 1, 1, 0, 1] [0, 1, 2, 0, 2, 3] \<and>
   (\<exists>r1 r2. Calculate [0, 0, 1, 0, 1, 1, 0, 1] [0, 1, 2, 0, 2, 3] = Some r1 \<and>
      Calculate [0, 0, 3 / 5, - 4 / 5, 7 / 5, - 1 / 5, 4 / 5, 3 / 5] [0, 1, 2, 0, 2, 3] = Some r2 \<and>
      Imin r2 = Imin r1 \<and> Imax r2 = Imax r1)"
proof -
  have l: "Length (Vec 0 0 2) > 1 / 10 ^ 10" by (simp add: Length_def)
  have n: "Normalize (Vec 0 0 2) = Vec 0 0 1"
    by (simp add: Normalize_def Length_def Let_def)
  have b: "right_handed_basis (Vec (3 / 5) (4 / 5) 0) (Vec (- 4 / 5) (3 / 5) 0) (Normalize (Vec 0 0 2))"
    unfolding n by (simp add: right_handed_basis_def Dot_def Cross_def)
  have bo: "basis_of (Vec 0 0 2) = (Vec 1 0 0, Vec 0 1 0)"
    by (simp add: basis_of_def n Cross_def Dot_def Normalize_def Length_def Let_def)
  have p1: "ProjectTo2D [0, 0, 0, 1, 0, 0, 1, 1, 0, 0, 1, 0] (Vec 0 0 2) (Vec 0 0 0)
     = Some [0, 0, 1, 0, 1, 1, 0, 1]"
    unfolding ProjectTo2D_concat bo
    by (simp add: upt_rec project_pair_def vert3_def vminus_def Dot_def)
  have p2: "project_loop [0, 0, 0, 1, 0, 0, 1, 1, 0, 0, 1, 0] (Vec 0 0 0) (Vec (3 / 5) (4 / 5) 0)
       (Vec (- 4 / 5) (3 / 5) 0) (length [0, 0, 0, 1, 0, 0, 1, 1, 0, 0, 1, 0 :: real] div 3) 0 []
     = Some [0, 0, 3 / 5, - 4 / 5, 7 / 5, - 1 / 5, 4 / 5, 3 / 5]"
    by (subst project_loop_map)
      (simp_all add: upt_rec project_pair_def vert3_def vminus_def Dot_def)
  have ok: "mesh_ok [0, 0, 1, 0, 1, 1, 0, 1] [0, 1, 2, 0, 2, 3]"
    by (simp add: mesh_ok_def index_ok_def)
  show ?thesis
    using principal_moments_basis_invariant[OF l b p1 p2 ok] l b p1 p2 ok by blast
qed

subsection \<open>Triangulation invariance\<close>

lemma tri_area_edges: "tri_area T = sum_list (map edge_area (tri_edges T))"
  by (cases T) (simp add: tri_area_def SignedTriangleArea_def field_simps)

lemma tri_mx_edges: "tri_mx T = sum_list (map edge_mx (tri_edges T))"
  by (cases T) (simp add: tri_mx_def SignedTriangleArea_def TriangleCentroid_def field_simps)

lemma tri_my_edges: "tri_my T = sum_list (map edge_my (tri_edges T))"
  by (cases T) (simp add: tri_my_def SignedTriangleArea_def TriangleCentroid_def field_simps)

lemma tri_Ix_edges: "tri_Ix T = sum_list (map edge_Ix (tri_edges T))"
  by (cases T)
    (simp add: tri_Ix_def SignedTriangleArea_def TriangleMomentsAboutOrigin_def field_simps)

lemma tri_Iy_edges: "tri_Iy T = sum_list (map edge_Iy (tri_edges T))"
  by (cases T)
    (simp add: tri_Iy_def SignedTriangleArea_def TriangleMomentsAboutOrigin_def field_simps)

lemma tri_Ixy_edges: "tri_Ixy T = sum_list (map edge_Ixy (tri_edges T))"
  by (cases T)
    (simp add: tri_Ixy_def SignedTriangleArea_def TriangleMomentsAboutOrigin_def field_simps)

lemma rev_edge_rev_edge [simp]: "rev_edge (rev_edge e) = e"
  by (cases e) simp

lemma sum_list_count:
  fixes F :: "'a \<Rightarrow> real"
  assumes "finite S" "set es \<subseteq> S"
  shows "sum_list (map F es) = (\<Sum>e\<in>S. real (count_list es e) * F e)"
  using assms(2)
proof (induction es)
  case Nil
  then show ?case by simp
next
  case (Cons a es)
  then have a: "a \<in> S" and sub: "set es \<subseteq> S" by auto
  have "(\<Sum>e\<in>S. real (count_list (a # es) e) * F e) =
        (\<Sum>e\<in>S. real (count_list es e) * F e + (if e = a then F e else 0))"
    by (intro sum.cong) (auto simp: algebra_simps)
  also have "\<dots> = (\<Sum>e\<in>S. real (count_list es e) * F e) + (\<Sum>e\<in>S. if e = a then F e else 0)"
    by (simp add: sum.distrib)
  also have "(\<Sum>e\<in>S. if e = a then F e else 0) = F a"
    using assms(1) a by (simp add: sum.delta)
  finally show ?case using Cons.IH[OF sub] by simp
qed

lemma antisymmetric_sum_net:
  fixes F :: "edge2 \<Rightarrow> real"
  assumes anti: "\<And>e. F (rev_edge e) = - F e"
    and S: "finite S" "set es \<subseteq> S" "rev_edge ` S \<subseteq> S"
  shows "2 * sum_list (map F es) = (\<Sum>e\<in>S. real_of_int (net es e) * F e)"
proof -
  have bij: "(\<Sum>e\<in>S. real (count_list es (rev_edge e)) * F e) =
             (\<Sum>e\<in>S. real (count_list es e) * F (rev_edge e))"
    by (rule sum.reindex_bij_witness[of S rev_edge rev_edge]) (use S(3) in auto)
  have "(\<Sum>e\<in>S. real_of_int (net es e) * F e) =
        (\<Sum>e\<in>S. real (count_list es e) * F e) - (\<Sum>e\<in>S. real (count_list es (rev_edge e)) * F e)"
    by (simp add: net_def sum_subtractf left_diff_distrib)
  also have "\<dots> = (\<Sum>e\<in>S. real (count_list es e) * F e) + (\<Sum>e\<in>S. real (count_list es e) * F e)"
    unfolding bij by (simp add: anti sum_negf)
  finally show ?thesis
    using sum_list_count[OF S(1,2), of F] by simp
qed

lemma same_boundary_net:
  assumes "same_boundary es fs"
  shows "net es e = net fs e"
proof -
  have in_set: "net es e' = net fs e'" if "e' \<in> set es \<union> set fs" for e'
    using assms that by (auto simp: same_boundary_def list_all_iff)
  have anti: "net xs (rev_edge e') = - net xs e'" for xs e'
    by (simp add: net_def)
  show ?thesis
  proof (cases "e \<in> set es \<union> set fs")
    case True
    then show ?thesis by (rule in_set)
  next
    case False
    show ?thesis
    proof (cases "rev_edge e \<in> set es \<union> set fs")
      case True
      from in_set[OF True] show ?thesis by (simp add: anti)
    next
      case r: False
      have "count_list es e = 0" "count_list fs e = 0"
        "count_list es (rev_edge e) = 0" "count_list fs (rev_edge e) = 0"
        using False r by (simp_all add: count_list_0_iff)
      then show ?thesis by (simp add: net_def)
    qed
  qed
qed

lemma antisymmetric_sum_eq:
  fixes F :: "edge2 \<Rightarrow> real"
  assumes anti: "\<And>e. F (rev_edge e) = - F e" and sb: "same_boundary es fs"
  shows "sum_list (map F es) = sum_list (map F fs)"
proof -
  let ?S = "(set es \<union> set fs) \<union> rev_edge ` (set es \<union> set fs)"
  have f: "finite ?S" by simp
  have c: "rev_edge ` ?S \<subseteq> ?S" by (auto simp: image_Un image_image)
  have "2 * sum_list (map F es) = (\<Sum>e\<in>?S. real_of_int (net es e) * F e)"
    by (rule antisymmetric_sum_net[of F ?S es, OF anti f _ c]) auto
  also have "\<dots> = (\<Sum>e\<in>?S. real_of_int (net fs e) * F e)"
    by (simp add: same_boundary_net[OF sb])
  also have "\<dots> = 2 * sum_list (map F fs)"
    by (rule antisymmetric_sum_net[of F ?S fs, OF anti f _ c, symmetric]) auto
  finally show ?thesis by simp
qed

lemma tri_sum_edges:
  assumes "\<And>T. f T = sum_list (map F (tri_edges T))"
  shows "tri_sum f vs ix = sum_list (map F (mesh_edges vs ix))"
proof -
  have "sum_list (map F (concat (map (\<lambda>t. tri_edges (tri vs ix t)) [0..<n]))) =
        (\<Sum>t<n. f (tri vs ix t))" for n
    by (induction n) (simp_all add: assms)
  then show ?thesis by (simp add: tri_sum_def mesh_edges_def)
qed

lemma edge_anti:
  "edge_area (rev_edge e) = - edge_area e" "edge_mx (rev_edge e) = - edge_mx e"
  "edge_my (rev_edge e) = - edge_my e" "edge_Ix (rev_edge e) = - edge_Ix e"
  "edge_Iy (rev_edge e) = - edge_Iy e" "edge_Ixy (rev_edge e) = - edge_Ixy e"
  by (cases e; cases "fst e"; cases "snd e"; simp add: field_simps)+

lemma same_boundary_sym: "same_boundary es fs \<Longrightarrow> same_boundary fs es"
  by (auto simp: same_boundary_def list_all_iff)

lemma same_boundary_trans:
  assumes "same_boundary es fs" "same_boundary fs gs"
  shows "same_boundary es gs"
  unfolding same_boundary_def list_all_iff
  using same_boundary_net[OF assms(1)] same_boundary_net[OF assms(2)] by simp

lemma moments_same_boundary:
  assumes "same_boundary (mesh_edges vs1 ix1) (mesh_edges vs2 ix2)"
  shows "moments vs1 ix1 = moments vs2 ix2"
proof -
  note e = antisymmetric_sum_eq[OF _ assms]
  have "tri_sum tri_area vs1 ix1 = tri_sum tri_area vs2 ix2"
    unfolding tri_sum_edges[of tri_area edge_area, OF tri_area_edges] by (rule e) (rule edge_anti)
  moreover have "tri_sum tri_mx vs1 ix1 = tri_sum tri_mx vs2 ix2"
    unfolding tri_sum_edges[of tri_mx edge_mx, OF tri_mx_edges] by (rule e) (rule edge_anti)
  moreover have "tri_sum tri_my vs1 ix1 = tri_sum tri_my vs2 ix2"
    unfolding tri_sum_edges[of tri_my edge_my, OF tri_my_edges] by (rule e) (rule edge_anti)
  moreover have "tri_sum tri_Ix vs1 ix1 = tri_sum tri_Ix vs2 ix2"
    unfolding tri_sum_edges[of tri_Ix edge_Ix, OF tri_Ix_edges] by (rule e) (rule edge_anti)
  moreover have "tri_sum tri_Iy vs1 ix1 = tri_sum tri_Iy vs2 ix2"
    unfolding tri_sum_edges[of tri_Iy edge_Iy, OF tri_Iy_edges] by (rule e) (rule edge_anti)
  moreover have "tri_sum tri_Ixy vs1 ix1 = tri_sum tri_Ixy vs2 ix2"
    unfolding tri_sum_edges[of tri_Ixy edge_Ixy, OF tri_Ixy_edges] by (rule e) (rule edge_anti)
  ultimately show ?thesis by (simp add: moments_def Let_def)
qed


lemma mesh_edges_2:
  "length ix div 3 = 2 \<Longrightarrow> mesh_edges vs ix = tri_edges (tri vs ix 0) @ tri_edges (tri vs ix 1)"
  by (simp add: mesh_edges_def upt_rec)

lemma square_fan: "triangulates unit_square [0, 0, 1, 0, 1, 1, 0, 1] [0, 1, 2, 0, 2, 3]"
  by (simp add: triangulates_def mesh_ok_def index_ok_def mesh_edges_2 tri_def
      unit_square_def polygon_edges_def same_boundary_def net_def)

lemma square_strip: "triangulates unit_square [0, 0, 1, 0, 1, 1, 0, 1] [0, 1, 3, 1, 2, 3]"
  by (simp add: triangulates_def mesh_ok_def index_ok_def mesh_edges_2 tri_def
      unit_square_def polygon_edges_def same_boundary_def net_def)

lemma square_clockwise:
  "triangulates (rev unit_square) [0, 0, 1, 0, 1, 1, 0, 1] [0, 3, 1, 1, 3, 2]"
  by (simp add: triangulates_def mesh_ok_def index_ok_def mesh_edges_2 tri_def
      unit_square_def polygon_edges_def same_boundary_def net_def)

text \<open>
  Triangulations of one orientation. Two meshes that triangulate the same polygon, both
  wound the way the corners of the polygon are listed, get the same result from
  \<open>Calculate\<close>, field by field and exactly. Each of the six sums is a sum over the directed
  edges of the triangles, in which an edge and its reverse cancel, so it is a sum over the
  boundary.
\<close>

lemma triangulation_invariance:
  assumes "triangulates ps vs1 ix1" and "triangulates ps vs2 ix2"
  shows "\<exists>r. Calculate vs1 ix1 = Some r \<and> Calculate vs2 ix2 = Some r"
proof -
  have "same_boundary (mesh_edges vs1 ix1) (mesh_edges vs2 ix2)"
    using assms same_boundary_trans[of "mesh_edges vs1 ix1" "polygon_edges ps" "mesh_edges vs2 ix2"]
      same_boundary_sym[of "mesh_edges vs2 ix2" "polygon_edges ps"]
    by (simp add: triangulates_def)
  then have "moments vs1 ix1 = moments vs2 ix2" by (rule moments_same_boundary)
  then show ?thesis
    using assms Calculate_moments[of vs1 ix1] Calculate_moments[of vs2 ix2]
    by (simp add: triangulates_def)
qed

text \<open>The unit square cut along the diagonal from corner 0 and along the one from corner 1.\<close>

lemma triangulation_invariance_square:
  "triangulates unit_square [0, 0, 1, 0, 1, 1, 0, 1] [0, 1, 2, 0, 2, 3] \<and>
   triangulates unit_square [0, 0, 1, 0, 1, 1, 0, 1] [0, 1, 3, 1, 2, 3] \<and>
   Calculate [0, 0, 1, 0, 1, 1, 0, 1] [0, 1, 2, 0, 2, 3] =
     Calculate [0, 0, 1, 0, 1, 1, 0, 1] [0, 1, 3, 1, 2, 3] \<and>
   Calculate [0, 0, 1, 0, 1, 1, 0, 1] [0, 1, 3, 1, 2, 3] \<noteq> None"
  using triangulation_invariance[OF square_fan square_strip] square_fan square_strip by auto

text \<open>
  Claim C1. Any two valid triangulations of a polygon, each wound consistently within
  itself, are to give identical area, Cx, Cy, Ix, Iy, Ixy, Imin and Imax. The code does
  not do that when the two are wound in opposite directions. The unit square cut along
  one diagonal into two counter-clockwise triangles and along the other into two
  clockwise triangles are two such triangulations. For both \<open>Calculate\<close> returns area 1
  and the centroid (1/2, 1/2): the area is taken as an absolute value, and in the
  centroid the sign of the total area cancels. But it returns Ix = Iy = 1/12, Ixy = 0 and
  Imin = Imax = 1/12 for the first, and Ix = Iy = -7/12, Ixy = -1/2, Imin = -13/12 and
  Imax = -1/12 for the second: the moments about the origin are summed with the signed
  areas and change sign with the winding, and the parallel-axis term is then subtracted
  with the absolute area.
\<close>

theorem opposite_windings_differ:
  "consistently_triangulates unit_square [0, 0, 1, 0, 1, 1, 0, 1] [0, 1, 2, 0, 2, 3] \<and>
   consistently_triangulates unit_square [0, 0, 1, 0, 1, 1, 0, 1] [0, 3, 1, 1, 3, 2] \<and>
   map_option Ix (Calculate [0, 0, 1, 0, 1, 1, 0, 1] [0, 1, 2, 0, 2, 3]) = Some (1 / 12) \<and>
   map_option Ix (Calculate [0, 0, 1, 0, 1, 1, 0, 1] [0, 3, 1, 1, 3, 2]) = Some (- 7 / 12) \<and>
   Calculate [0, 0, 1, 0, 1, 1, 0, 1] [0, 1, 2, 0, 2, 3] =
     Some \<lparr>area = 1, Cx = 1 / 2, Cy = 1 / 2, Ix = 1 / 12, Iy = 1 / 12, Ixy = 0,
           Imin = 1 / 12, Imax = 1 / 12, theta = 0\<rparr> \<and>
   Calculate [0, 0, 1, 0, 1, 1, 0, 1] [0, 3, 1, 1, 3, 2] =
     Some \<lparr>area = 1, Cx = 1 / 2, Cy = 1 / 2, Ix = - 7 / 12, Iy = - 7 / 12, Ixy = - 1 / 2,
           Imin = - 13 / 12, Imax = - 1 / 12, theta = pi / 4\<rparr>"
proof -
  have c1: "Calculate [0, 0, 1, 0, 1, 1, 0, 1] [0, 1, 2, 0, 2, 3] =
     Some \<lparr>area = 1, Cx = 1 / 2, Cy = 1 / 2, Ix = 1 / 12, Iy = 1 / 12, Ixy = 0,
           Imin = 1 / 12, Imax = 1 / 12, theta = 0\<rparr>"
    by (simp add: Calculate_def first_pass.simps second_pass.simps triangle_at_def read_at_def
        SignedTriangleArea_def TriangleCentroid_def TriangleMomentsAboutOrigin_def principal_def
        AreaMomentsResult_init_def Let_def)
  have q: "sqrt (1 / 4) = 1 / 2" using real_sqrt_abs[of "1 / 2"] by (simp add: power2_eq_square)
  have c2: "Calculate [0, 0, 1, 0, 1, 1, 0, 1] [0, 3, 1, 1, 3, 2] =
     Some \<lparr>area = 1, Cx = 1 / 2, Cy = 1 / 2, Ix = - 7 / 12, Iy = - 7 / 12, Ixy = - 1 / 2,
           Imin = - 13 / 12, Imax = - 1 / 12, theta = pi / 4\<rparr>"
    by (simp add: Calculate_def first_pass.simps second_pass.simps triangle_at_def read_at_def
        SignedTriangleArea_def TriangleCentroid_def TriangleMomentsAboutOrigin_def principal_def
        AreaMomentsResult_init_def Let_def atan2_def q)
  show ?thesis
    using square_fan square_clockwise
    by (simp add: c1 c2 consistently_triangulates_def)
qed

subsection \<open>The principal angle of a rectangle\<close>

text \<open>
  The rectangle of width 3 and height 2: Ixy is zero and Ix is less than Iy, so the
  angle is taken by \<open>atan2\<close> at a zero first argument left of the origin.
\<close>

lemma rectangle_theta:
  "Calculate [0, 0, 3, 0, 3, 2, 0, 2] [0, 1, 2, 0, 2, 3] =
     Some \<lparr>area = 6, Cx = 3 / 2, Cy = 1, Ix = 2, Iy = 9 / 2, Ixy = 0,
           Imin = 2, Imax = 9 / 2, theta = - (pi / 2)\<rparr>"
proof -
  have q: "sqrt (25 / 16) = 5 / 4" using real_sqrt_abs[of "5 / 4"] by (simp add: power2_eq_square)
  show ?thesis
    by (simp add: Calculate_def first_pass.simps second_pass.simps triangle_at_def read_at_def
        SignedTriangleArea_def TriangleCentroid_def TriangleMomentsAboutOrigin_def principal_def
        AreaMomentsResult_init_def Let_def atan2_def q)
qed

end
